theory Spec2Isabelle
  imports Complex_Main "HOL-Library.Sublist" "HOL-Library.Multiset" "HOL-Library.Log_Nat"
begin

section \<open>Utilities of \<^verbatim>\<open>app.py\<close>\<close>

subsection \<open>Exceptions\<close>

text \<open>
  The exceptions that the modelled code can raise. Every constructor stands for a
  subclass of Python's \<^verbatim>\<open>Exception\<close>, which is what \<^verbatim>\<open>except Exception\<close> catches.
  \<^verbatim>\<open>LibraryError\<close> carries the message of an exception raised inside Pillow or ReportLab.
\<close>

datatype py_error = KeyError | ZeroDivisionError | OverflowError | LibraryError string

subsection \<open>Strings: \<^verbatim>\<open>str.lower\<close> and the \<^verbatim>\<open>in\<close> operator\<close>

text \<open>
  A prompt is a \<^typ>\<open>string\<close>, a list of 8-bit characters: the model covers the prompts
  written in ASCII, on which \<^verbatim>\<open>str.lower\<close> maps the letters \<^verbatim>\<open>A\<close> to \<^verbatim>\<open>Z\<close> to
  \<^verbatim>\<open>a\<close> to \<^verbatim>\<open>z\<close> and leaves every other character alone. All keywords are ASCII.
\<close>

definition lower_char :: "char \<Rightarrow> char" where
  "lower_char c =
     (let n = (of_char c :: nat) in if 65 \<le> n \<and> n \<le> 90 then char_of (n + 32) else c)"

definition lower :: "string \<Rightarrow> string" where
  "lower s = map lower_char s"

text \<open>\<^verbatim>\<open>key in p\<close> on strings: \<^verbatim>\<open>key\<close> occurs in \<^verbatim>\<open>p\<close> as a contiguous substring.\<close>

fun str_in :: "string \<Rightarrow> string \<Rightarrow> bool" where
  "str_in key [] = (key = [])"
| "str_in key (c # cs) = (prefix key (c # cs) \<or> str_in key cs)"

subsection \<open>Keyword tables\<close>

definition POSITION_KEYWORDS :: "string list" where
  "POSITION_KEYWORDS =
     [''top-left'', ''top-right'', ''bottom-left'', ''bottom-right'',
      ''left'', ''right'', ''top'', ''bottom'', ''center'', ''middle'']"

definition ACTION_KEYWORDS :: "string list" where
  "ACTION_KEYWORDS =
     [''walking'', ''running'', ''sitting'', ''standing'', ''waving'', ''talking'',
      ''reading'', ''pointing'', ''dancing'', ''jumping'', ''holding'', ''looking'']"

subsection \<open>\<^verbatim>\<open>infer_position_from_prompt\<close>\<close>

text \<open>The dictionary \<^verbatim>\<open>spots\<close>, built from the canvas size on every call.\<close>

definition spots :: "int \<Rightarrow> int \<Rightarrow> (string \<times> (int \<times> int)) list" where
  "spots W H =
     (let pad = 40 in
      [(''top-left'', (pad, pad)),
       (''top-right'', (W - pad, pad)),
       (''bottom-left'', (pad, H - pad)),
       (''bottom-right'', (W - pad, H - pad)),
       (''left'', (pad, H div 2)),
       (''right'', (W - pad, H div 2)),
       (''top'', (W div 2, pad)),
       (''bottom'', (W div 2, H - pad)),
       (''center'', (W div 2, H div 2)),
       (''middle'', (W div 2, H div 2))])"

text \<open>
  The loop \<^verbatim>\<open>for key in POSITION_KEYWORDS: if key in p: return spots[key]\<close>.
  \<open>None\<close> means that the loop ran to its end without returning; a subscript on a
  missing key raises \<^verbatim>\<open>KeyError\<close>.
\<close>

fun scan_keywords ::
  "(string \<rightharpoonup> int \<times> int) \<Rightarrow> string list \<Rightarrow> string \<Rightarrow> (py_error + int \<times> int) option" where
  "scan_keywords sp [] p = None"
| "scan_keywords sp (key # keys) p =
     (if str_in key p
      then Some (case sp key of None \<Rightarrow> Inl KeyError | Some a \<Rightarrow> Inr a)
      else scan_keywords sp keys p)"

text \<open>
  \<^verbatim>\<open>//\<close> is floor division on unbounded integers, which is \<open>div\<close> on \<^typ>\<open>int\<close>,
  except that Python raises \<^verbatim>\<open>ZeroDivisionError\<close> on a zero divisor.
  \<^verbatim>\<open>(prompt or "")\<close> is the prompt itself for every \<^verbatim>\<open>str\<close>. The argument
  \<^verbatim>\<open>total\<close> is written \<open>tot\<close>, since \<open>total\<close> is a constant of HOL.
\<close>

definition infer_position_from_prompt ::
  "string \<Rightarrow> int \<Rightarrow> int \<Rightarrow> int \<Rightarrow> int \<Rightarrow> py_error + int \<times> int" where
  "infer_position_from_prompt prompt W H index tot =
     (let p = lower prompt; pad = 40 in
      case scan_keywords (map_of (spots W H)) POSITION_KEYWORDS p of
        Some r \<Rightarrow> r
      | None \<Rightarrow>
          if tot + 1 = 0 then Inl ZeroDivisionError
          else Inr (pad + (index + 1) * (W - 2 * pad) div (tot + 1), H - pad))"

text \<open>
  The anchor table in the words of the specification: the corners lie 40 pixels inside
  the canvas, the edge anchors 40 pixels inside their edge at its midpoint, and
  \<^verbatim>\<open>center\<close> and \<^verbatim>\<open>middle\<close> are the canvas midpoint.
\<close>

definition spec_anchor :: "int \<Rightarrow> int \<Rightarrow> string \<Rightarrow> int \<times> int" where
  "spec_anchor W H k =
     (if k = ''top-left'' then (40, 40)
      else if k = ''top-right'' then (W - 40, 40)
      else if k = ''bottom-left'' then (40, H - 40)
      else if k = ''bottom-right'' then (W - 40, H - 40)
      else if k = ''left'' then (40, H div 2)
      else if k = ''right'' then (W - 40, H div 2)
      else if k = ''top'' then (W div 2, 40)
      else if k = ''bottom'' then (W div 2, H - 40)
      else (W div 2, H div 2))"

subsection \<open>\<^verbatim>\<open>extract_actions\<close>\<close>

text \<open>The comprehension \<^verbatim>\<open>[v for v in ACTION_KEYWORDS if v in p]\<close>, as the loop it runs.\<close>

fun collect_present :: "string list \<Rightarrow> string \<Rightarrow> string list" where
  "collect_present [] p = []"
| "collect_present (v # vs) p =
     (if str_in v p then v # collect_present vs p else collect_present vs p)"

definition extract_actions :: "string \<Rightarrow> string list" where
  "extract_actions prompt = (let p = lower prompt in collect_present ACTION_KEYWORDS p)"

subsection \<open>Pillow and floating point\<close>

text \<open>
  Pillow is a library, not code of the repository: the operations that \<^verbatim>\<open>app.py\<close> calls
  are parameters of the model, collected in a record, over an abstract type of images.
  Any of them may raise. The type of a \<^verbatim>\<open>float\<close> is a parameter as well: the only
  floating-point operation on a scale factor is \<^verbatim>\<open>int(w * scale)\<close>, the field
  \<open>float_int_mul\<close>, which CPython computes in binary64 (\<open>binary64_int_mul\<close> below).
\<close>

type_synonym bytes = "char list"

type_synonym rgba = "nat \<times> nat \<times> nat \<times> nat"

record ('img, 'f) library =
  pil_open :: "bytes \<Rightarrow> py_error + 'img"
  pil_convert :: "'img \<Rightarrow> string \<Rightarrow> py_error + 'img"
  pil_mode :: "'img \<Rightarrow> string"
  pil_size :: "'img \<Rightarrow> int \<times> int"
  pil_resize :: "'img \<Rightarrow> int \<times> int \<Rightarrow> py_error + 'img"
  pil_mirror :: "'img \<Rightarrow> py_error + 'img"
  pil_new :: "string \<Rightarrow> int \<times> int \<Rightarrow> rgba \<Rightarrow> py_error + 'img"
  pil_alpha_composite :: "'img \<Rightarrow> 'img \<Rightarrow> int \<times> int \<Rightarrow> py_error + 'img"
  pil_save :: "'img \<Rightarrow> string \<Rightarrow> py_error + bytes"
  float_int_mul :: "int \<Rightarrow> 'f \<Rightarrow> py_error + int"

text \<open>\<^verbatim>\<open>Image.open(io.BytesIO(file_bytes)).convert("RGBA")\<close>\<close>

definition bytes_to_image :: "('img, 'f) library \<Rightarrow> bytes \<Rightarrow> py_error + 'img" where
  "bytes_to_image lib file_bytes =
     (case pil_open lib file_bytes of
        Inl e \<Rightarrow> Inl e
      | Inr img \<Rightarrow> pil_convert lib img ''RGBA'')"

definition image_to_bytes :: "('img, 'f) library \<Rightarrow> 'img \<Rightarrow> string \<Rightarrow> py_error + bytes" where
  "image_to_bytes lib img fmt = pil_save lib img fmt"

text \<open>
  \<^verbatim>\<open>img.resize((w2, h2), Image.LANCZOS)\<close> with \<^verbatim>\<open>w2 = max(1, int(w * scale))\<close> and
  \<^verbatim>\<open>h2 = max(1, int(h * scale))\<close>.
\<close>

definition scale_image :: "('img, 'f) library \<Rightarrow> 'img \<Rightarrow> 'f \<Rightarrow> py_error + 'img" where
  "scale_image lib img scale =
     (case pil_size lib img of (w, h) \<Rightarrow>
        (case float_int_mul lib w scale of
           Inl e \<Rightarrow> Inl e
         | Inr a \<Rightarrow>
             (let w2 = max 1 a in
              case float_int_mul lib h scale of
                Inl e \<Rightarrow> Inl e
              | Inr b \<Rightarrow> (let h2 = max 1 b in pil_resize lib img (w2, h2)))))"

text \<open>
  \<^verbatim>\<open>int\<close> of a number truncates toward zero. In \<^verbatim>\<open>paste_rgba\<close> the arguments are
  integers: \<^verbatim>\<open>ow / 2\<close> and \<^verbatim>\<open>x_center - ow / 2\<close> are multiples of one half, which
  binary64 holds exactly for every magnitude below \<open>2\<^sup>5\<^sup>2\<close>, so the arithmetic is that of
  the rationals. \<^verbatim>\<open>y_bottom - oh\<close> is an integer, which \<^verbatim>\<open>int\<close> leaves alone.
\<close>

definition py_int :: "rat \<Rightarrow> int" where
  "py_int r = (if 0 \<le> r then \<lfloor>r\<rfloor> else \<lceil>r\<rceil>)"

text \<open>
  A finite binary64 number is a rational number. \<open>round_binary64\<close> rounds a rational to
  the nearest number with 53 significant bits, ties to the even significand, which is
  what every arithmetic operation of a \<^verbatim>\<open>float\<close> does to its exact result.
  \<open>float_exponent x\<close> is the integer \<open>e\<close> with \<open>2\<^sup>e \<le> x < 2\<^sup>e\<^sup>+\<^sup>1\<close>, for positive \<open>x\<close>. A result of
  magnitude \<open>2\<^sup>1\<^sup>0\<^sup>2\<^sup>4\<close> is infinite, and \<^verbatim>\<open>int\<close> of an infinite float raises
  \<^verbatim>\<open>OverflowError\<close>. Below \<open>2\<^sup>-\<^sup>1\<^sup>0\<^sup>2\<^sup>2\<close> binary64 has fewer bits, which \<^verbatim>\<open>int\<close> does not
  see: there the result is 0 either way. The integer \<^verbatim>\<open>w\<close> is an image size, below
  \<open>2\<^sup>5\<^sup>3\<close>, and becomes a \<^verbatim>\<open>float\<close> unchanged.
\<close>

definition float_exponent :: "rat \<Rightarrow> int" where
  "float_exponent x =
     (if 1 \<le> x then bitlen \<lfloor>x\<rfloor> - 1 else - bitlen (\<lceil>1 / x\<rceil> - 1))"

definition round_half_even :: "rat \<Rightarrow> int" where
  "round_half_even x =
     (let f = \<lfloor>x\<rfloor>; d = x - of_int f
      in if d < 1 / 2 then f else if 1 / 2 < d then f + 1 else if even f then f else f + 1)"

definition pow2 :: "int \<Rightarrow> rat" where
  "pow2 e = (if 0 \<le> e then 2 ^ nat e else 1 / 2 ^ nat (- e))"

definition round_binary64 :: "rat \<Rightarrow> rat" where
  "round_binary64 x =
     (if x = 0 then 0
      else (let e = float_exponent \<bar>x\<bar> - 52
            in of_int (round_half_even (x / pow2 e)) * pow2 e))"

text \<open>\<^verbatim>\<open>int(w * scale)\<close> on a \<^verbatim>\<open>float\<close> \<^verbatim>\<open>scale\<close>.\<close>

definition binary64_int_mul :: "int \<Rightarrow> rat \<Rightarrow> py_error + int" where
  "binary64_int_mul w scale =
     (let r = round_binary64 (of_int w * scale)
      in if 2 ^ 1024 \<le> \<bar>r\<bar> then Inl OverflowError else Inr (py_int r))"

text \<open>
  \<^verbatim>\<open>new_scale / 100.0\<close>, the scale factor that the slider of a character stores, for
  \<^verbatim>\<open>new_scale\<close> from 20 to 200 in steps of 5.
\<close>

definition slider_scale :: "int \<Rightarrow> rat" where
  "slider_scale new_scale = round_binary64 (of_int new_scale / 100)"

definition paste_rgba ::
  "('img, 'f) library \<Rightarrow> 'img \<Rightarrow> 'img \<Rightarrow> int \<Rightarrow> int \<Rightarrow> py_error + 'img" where
  "paste_rgba lib base overlay x_center y_bottom =
     (case pil_size lib overlay of (ow, oh) \<Rightarrow>
        (let x = py_int (of_int x_center - of_int ow / 2);
             y = y_bottom - oh
         in pil_alpha_composite lib base overlay (x, y)))"

definition ensure_rgba :: "('img, 'f) library \<Rightarrow> 'img \<Rightarrow> py_error + 'img" where
  "ensure_rgba lib img =
     (if pil_mode lib img \<noteq> ''RGBA'' then pil_convert lib img ''RGBA'' else Inr img)"

definition flip_h_if_needed :: "('img, 'f) library \<Rightarrow> 'img \<Rightarrow> bool \<Rightarrow> py_error + 'img" where
  "flip_h_if_needed lib img flip_h = (if flip_h then pil_mirror lib img else Inr img)"

section \<open>Data model\<close>

text \<open>
  The dataclass \<^verbatim>\<open>Character\<close>. The fields carry the prefix \<open>ch_\<close>, since \<open>x\<close>,
  \<open>y\<close> and \<open>z\<close> as constants would take these names from every variable.
\<close>

record 'f Character =
  ch_name :: string
  ch_raw_bytes :: bytes
  ch_x :: int
  ch_y :: int
  ch_scale :: 'f
  ch_flip_h :: bool
  ch_actions :: "string list"
  ch_z :: int

definition as_image :: "('img, 'f) library \<Rightarrow> 'f Character \<Rightarrow> py_error + 'img" where
  "as_image lib self =
     (case bytes_to_image lib (ch_raw_bytes self) of
        Inl e \<Rightarrow> Inl e
      | Inr img \<Rightarrow>
          (case flip_h_if_needed lib img (ch_flip_h self) of
             Inl e \<Rightarrow> Inl e
           | Inr img \<Rightarrow>
               (case scale_image lib img (ch_scale self) of
                  Inl e \<Rightarrow> Inl e
                | Inr img \<Rightarrow> ensure_rgba lib img)))"

section \<open>The script: preview and export\<close>

text \<open>
  What a script run does from \<^verbatim>\<open># Compose preview\<close> on. The state is what outlives a
  statement: the character list of the session, and what Streamlit has been asked to show
  (the \<^verbatim>\<open>st.error\<close> message and the three download buttons). A statement takes the state
  and returns the state after it together with its value, or with the exception that
  ended it. \<^verbatim>\<open>st.image\<close>, which displays the composite, writes neither and is left out.
\<close>

datatype 'f json =
  JString string | JInt int | JFloat 'f | JBool bool
  | JArray "'f json list" | JObject "(string \<times> 'f json) list"

datatype 'f payload = Png bytes | Json "'f json" | Pdf bytes

datatype 'f ui_event =
  St_error py_error
  | St_download_button string "'f payload" bool

record 'f session_state =
  characters :: "'f Character list"
  ui :: "'f ui_event list"

text \<open>
  \<^verbatim>\<open>sorted(st.session_state.characters, key=lambda c: c.z)\<close>: a new list, sorted by a
  stable sort, as \<^verbatim>\<open>sorted\<close> is documented to be.
\<close>

definition sorted_by_z :: "'f Character list \<Rightarrow> 'f Character list" where
  "sorted_by_z cs = sort_key ch_z cs"

text \<open>The body of \<^verbatim>\<open>for ch in sorted(...)\<close>, which pastes onto the canvas in place.\<close>

fun draw_characters ::
  "('img, 'f) library \<Rightarrow> 'f Character list \<Rightarrow> 'img \<Rightarrow> 'f session_state \<Rightarrow>
   'f session_state \<times> (py_error + 'img)" where
  "draw_characters lib [] canvas s = (s, Inr canvas)"
| "draw_characters lib (ch # rest) canvas s =
     (case as_image lib ch of
        Inl e \<Rightarrow> (s, Inl e)
      | Inr sprite \<Rightarrow>
          (case paste_rgba lib canvas sprite (ch_x ch) (ch_y ch) of
             Inl e \<Rightarrow> (s, Inl e)
           | Inr canvas' \<Rightarrow> draw_characters lib rest canvas' s))"

text \<open>
  \<^verbatim>\<open>composite = Image.new("RGBA", (canvas_w, canvas_h), (0, 0, 0, 0))\<close>, then
  \<^verbatim>\<open>composite.alpha_composite(bg_img)\<close>, then the loop.
\<close>

definition compose_preview ::
  "('img, 'f) library \<Rightarrow> int \<Rightarrow> int \<Rightarrow> 'img \<Rightarrow> 'f session_state \<Rightarrow>
   'f session_state \<times> (py_error + 'img)" where
  "compose_preview lib canvas_w canvas_h bg_img s =
     (case pil_new lib ''RGBA'' (canvas_w, canvas_h) (0, 0, 0, 0) of
        Inl e \<Rightarrow> (s, Inl e)
      | Inr blank \<Rightarrow>
          (case pil_alpha_composite lib blank bg_img (0, 0) of
             Inl e \<Rightarrow> (s, Inl e)
           | Inr canvas \<Rightarrow> draw_characters lib (sorted_by_z (characters s)) canvas s))"

subsection \<open>The scene as JSON\<close>

definition character_entry :: "'f Character \<Rightarrow> 'f json" where
  "character_entry ch =
     JObject
       [(''name'', JString (ch_name ch)),
        (''x'', JInt (ch_x ch)),
        (''y'', JInt (ch_y ch)),
        (''scale'', JFloat (ch_scale ch)),
        (''flip_h'', JBool (ch_flip_h ch)),
        (''z'', JInt (ch_z ch)),
        (''actions'', JArray (map JString (ch_actions ch)))]"

definition scene_dict :: "string \<Rightarrow> int \<Rightarrow> int \<Rightarrow> 'f Character list \<Rightarrow> 'f json" where
  "scene_dict prompt canvas_w canvas_h cs =
     JObject
       [(''prompt'', JString prompt),
        (''canvas'', JObject [(''width'', JInt canvas_w), (''height'', JInt canvas_h)]),
        (''characters'', JArray (map character_entry cs))]"

subsection \<open>The PDF report\<close>

text \<open>
  ReportLab is a library as well: its canvas is an abstract type, and each run of drawing
  calls between two places where the script's own data enters is one operation that may
  raise. The cursor \<^verbatim>\<open>y\<close> of the character page, a \<^verbatim>\<open>float\<close> in points, lives in the
  canvas: \<open>rl_advance\<close> is \<^verbatim>\<open>y -= 3.6*cm\<close> with the page break that follows it.
  \<open>rl_import\<close> is the four \<^verbatim>\<open>import\<close> statements, which raise where ReportLab is not
  installed; \<open>pil_thumbnail\<close> is \<^verbatim>\<open>copy()\<close> followed by \<^verbatim>\<open>thumbnail((220, 220))\<close>.
\<close>

record ('img, 'f, 'c) reportlab =
  rl_import :: "py_error option"
  rl_cover :: "py_error + 'c"
  rl_prompt :: "string \<Rightarrow> 'c \<Rightarrow> py_error + 'c"
  rl_composite :: "bytes \<Rightarrow> int \<times> int \<Rightarrow> 'c \<Rightarrow> py_error + 'c"
  rl_heading :: "'c \<Rightarrow> py_error + 'c"
  rl_character :: "nat \<Rightarrow> 'f Character \<Rightarrow> 'c \<Rightarrow> py_error + 'c"
  pil_thumbnail :: "'img \<Rightarrow> int \<times> int \<Rightarrow> py_error + 'img"
  rl_draw_thumbnail :: "bytes \<Rightarrow> 'c \<Rightarrow> py_error + 'c"
  rl_advance :: "'c \<Rightarrow> py_error + 'c"
  rl_reflections :: "'c \<Rightarrow> py_error + 'c"
  rl_save :: "'c \<Rightarrow> py_error + bytes"

text \<open>The body of the inner \<^verbatim>\<open>try\<close>: the thumbnail of one character.\<close>

definition thumbnail_block ::
  "('img, 'f) library \<Rightarrow> ('img, 'f, 'c) reportlab \<Rightarrow> 'f Character \<Rightarrow> 'c \<Rightarrow> py_error + 'c" where
  "thumbnail_block lib rl ch c =
     (case as_image lib ch of
        Inl e \<Rightarrow> Inl e
      | Inr img \<Rightarrow>
          (case pil_thumbnail rl img (220, 220) of
             Inl e \<Rightarrow> Inl e
           | Inr thumb \<Rightarrow>
               (case image_to_bytes lib thumb ''PNG'' of
                  Inl e \<Rightarrow> Inl e
                | Inr b \<Rightarrow> rl_draw_thumbnail rl b c)))"

text \<open>
  \<^verbatim>\<open>for i, ch in enumerate(st.session_state.characters, 1)\<close>. The inner
  \<^verbatim>\<open>except Exception: pass\<close> drops a failed thumbnail and goes on.
\<close>

fun pdf_characters ::
  "('img, 'f) library \<Rightarrow> ('img, 'f, 'c) reportlab \<Rightarrow> nat \<Rightarrow> 'f Character list \<Rightarrow> 'c \<Rightarrow>
   py_error + 'c" where
  "pdf_characters lib rl i [] c = Inr c"
| "pdf_characters lib rl i (ch # rest) c =
     (case rl_character rl i ch c of
        Inl e \<Rightarrow> Inl e
      | Inr c1 \<Rightarrow>
          (let c2 = (case thumbnail_block lib rl ch c1 of Inl e \<Rightarrow> c1 | Inr c' \<Rightarrow> c') in
           case rl_advance rl c2 of
             Inl e \<Rightarrow> Inl e
           | Inr c3 \<Rightarrow> pdf_characters lib rl (i + 1) rest c3))"

text \<open>The body of the outer \<^verbatim>\<open>try\<close>, up to \<^verbatim>\<open>return buff.getvalue()\<close>.\<close>

definition pdf_body ::
  "('img, 'f) library \<Rightarrow> ('img, 'f, 'c) reportlab \<Rightarrow> string \<Rightarrow> 'img \<Rightarrow> 'f Character list \<Rightarrow>
   py_error + bytes" where
  "pdf_body lib rl prompt composite cs =
     (case rl_import rl of
        Some e \<Rightarrow> Inl e
      | None \<Rightarrow>
     (case rl_cover rl of
        Inl e \<Rightarrow> Inl e
      | Inr c \<Rightarrow>
     (case rl_prompt rl prompt c of
        Inl e \<Rightarrow> Inl e
      | Inr c \<Rightarrow>
     (case image_to_bytes lib composite ''PNG'' of
        Inl e \<Rightarrow> Inl e
      | Inr comp_png \<Rightarrow>
     (case rl_composite rl comp_png (pil_size lib composite) c of
        Inl e \<Rightarrow> Inl e
      | Inr c \<Rightarrow>
     (case rl_heading rl c of
        Inl e \<Rightarrow> Inl e
      | Inr c \<Rightarrow>
     (case pdf_characters lib rl 1 cs c of
        Inl e \<Rightarrow> Inl e
      | Inr c \<Rightarrow>
     (case rl_reflections rl c of
        Inl e \<Rightarrow> Inl e
      | Inr c \<Rightarrow> rl_save rl c))))))))"

text \<open>
  \<^verbatim>\<open>try: body except Exception as e: handler\<close> on a statement: the handler runs in the
  state that the body left, and what the handler raises propagates.
\<close>

definition try_except ::
  "('s \<Rightarrow> 's \<times> (py_error + 'a)) \<Rightarrow> (py_error \<Rightarrow> 's \<Rightarrow> 's \<times> (py_error + 'a)) \<Rightarrow>
   's \<Rightarrow> 's \<times> (py_error + 'a)" where
  "try_except body handler s =
     (case body s of
        (s', Inl e) \<Rightarrow> handler e s'
      | (s', Inr v) \<Rightarrow> (s', Inr v))"

text \<open>
  \<^verbatim>\<open>build_pdf_doc\<close>: the handler shows \<^verbatim>\<open>PDF generation failed\<close> with the exception and
  returns \<^verbatim>\<open>None\<close>.
\<close>

definition build_pdf_doc ::
  "('img, 'f) library \<Rightarrow> ('img, 'f, 'c) reportlab \<Rightarrow> string \<Rightarrow> 'img \<Rightarrow> 'f session_state \<Rightarrow>
   'f session_state \<times> (py_error + bytes option)" where
  "build_pdf_doc lib rl prompt composite =
     try_except
       (\<lambda>s. (s, case pdf_body lib rl prompt composite (characters s) of
                   Inl e \<Rightarrow> Inl e
                 | Inr b \<Rightarrow> Inr (Some b)))
       (\<lambda>e s. (s\<lparr>ui := ui s @ [St_error e]\<rparr>, Inr None))"

subsection \<open>The three download buttons\<close>

text \<open>
  The buttons are made in the order PNG, JSON, PDF. \<^verbatim>\<open>pdf_bytes if pdf_bytes else b""\<close>
  is the data of the third, which is disabled when \<^verbatim>\<open>pdf_bytes is None\<close>.
\<close>

definition export_scene ::
  "('img, 'f) library \<Rightarrow> ('img, 'f, 'c) reportlab \<Rightarrow> string \<Rightarrow> int \<Rightarrow> int \<Rightarrow> 'img \<Rightarrow>
   'f session_state \<Rightarrow> 'f session_state \<times> (py_error + unit)" where
  "export_scene lib rl prompt canvas_w canvas_h composite s =
     (case image_to_bytes lib composite ''PNG'' of
        Inl e \<Rightarrow> (s, Inl e)
      | Inr png_bytes \<Rightarrow>
          (let s1 = s\<lparr>ui := ui s @ [St_download_button ''scene.png'' (Png png_bytes) False]\<rparr>;
               scene = scene_dict prompt canvas_w canvas_h (characters s1);
               s2 = s1\<lparr>ui := ui s1 @ [St_download_button ''scene.json'' (Json scene) False]\<rparr>
           in case build_pdf_doc lib rl prompt composite s2 of
                (s3, Inl e) \<Rightarrow> (s3, Inl e)
              | (s3, Inr pdf_bytes) \<Rightarrow>
                  (s3\<lparr>ui := ui s3 @
                      [St_download_button ''documentation.pdf''
                         (Pdf (case pdf_bytes of
                                 None \<Rightarrow> []
                               | Some b \<Rightarrow> if b \<noteq> [] then b else []))
                         (pdf_bytes = None)]\<rparr>,
                   Inr ())))"

text \<open>One pass of the script from the preview to the last download button.\<close>

definition render ::
  "('img, 'f) library \<Rightarrow> ('img, 'f, 'c) reportlab \<Rightarrow> string \<Rightarrow> int \<Rightarrow> int \<Rightarrow> 'img \<Rightarrow>
   'f session_state \<Rightarrow> 'f session_state \<times> (py_error + unit)" where
  "render lib rl prompt canvas_w canvas_h bg_img s =
     (case compose_preview lib canvas_w canvas_h bg_img s of
        (s1, Inl e) \<Rightarrow> (s1, Inl e)
      | (s1, Inr composite) \<Rightarrow> export_scene lib rl prompt canvas_w canvas_h composite s1)"

section \<open>An instance of the libraries\<close>

text \<open>
  To run the model on a concrete scene the library parameters need values. In this
  instance an image is its size together with the list of the layers painted on it, each
  with the position of its origin, so that a composite shows what was pasted, where, and
  in which order. A scale factor is the rational number that the \<^verbatim>\<open>float\<close> is, with the
  arithmetic of binary64, and a PDF canvas is the list of the items drawn on it.
\<close>

type_synonym layers = "(int \<times> int) \<times> (bytes \<times> int \<times> int) list"

definition example_lib :: "(layers, rat) library" where
  "example_lib =
     \<lparr>pil_open = (\<lambda>b. if b = [] then Inl (LibraryError ''cannot identify image file'')
                       else Inr ((10 * int (length b), 20 * int (length b)), [(b, 0, 0)])),
      pil_convert = (\<lambda>img m. Inr img),
      pil_mode = (\<lambda>img. ''RGBA''),
      pil_size = fst,
      pil_resize = (\<lambda>img sz. Inr (sz, snd img)),
      pil_mirror = (\<lambda>img. Inr img),
      pil_new = (\<lambda>m sz c. Inr (sz, [])),
      pil_alpha_composite =
        (\<lambda>base overlay dest.
           Inr (fst base,
                snd base @ map (\<lambda>(n, dx, dy). (n, dx + fst dest, dy + snd dest)) (snd overlay))),
      pil_save = (\<lambda>img fmt. Inr (concat (map fst (snd img)))),
      float_int_mul = binary64_int_mul\<rparr>"

definition example_reportlab :: "(layers, rat, string list) reportlab" where
  "example_reportlab =
     \<lparr>rl_import = None,
      rl_cover = Inr [''cover''],
      rl_prompt = (\<lambda>p c. Inr (c @ [p])),
      rl_composite = (\<lambda>b sz c. Inr (c @ [b])),
      rl_heading = (\<lambda>c. Inr (c @ [''characters''])),
      rl_character = (\<lambda>i ch c. Inr (c @ [ch_name ch])),
      pil_thumbnail = (\<lambda>img sz. Inr img),
      rl_draw_thumbnail = (\<lambda>b c. Inr (c @ [b])),
      rl_advance = (\<lambda>c. Inr c),
      rl_reflections = (\<lambda>c. Inr (c @ [''reflections''])),
      rl_save = (\<lambda>c. Inr (concat c))\<rparr>"

text \<open>The same, on a machine where ReportLab is not installed.\<close>

definition no_reportlab :: "(layers, rat, string list) reportlab" where
  "no_reportlab = example_reportlab\<lparr>rl_import := Some (LibraryError ''No module named reportlab'')\<rparr>"

text \<open>The same, where Pillow fails on every thumbnail.\<close>

definition failing_thumbnails :: "(layers, rat, string list) reportlab" where
  "failing_thumbnails =
     example_reportlab\<lparr>pil_thumbnail := (\<lambda>img sz. Inl (LibraryError ''cannot make a thumbnail''))\<rparr>"

text \<open>Three characters, given in the order of the session list.\<close>

definition alice :: "rat Character" where
  "alice = \<lparr>ch_name = ''Char 1'', ch_raw_bytes = ''a'', ch_x = 100, ch_y = 300,
            ch_scale = 1 / 2, ch_flip_h = False, ch_actions = [], ch_z = 1\<rparr>"

definition bob :: "rat Character" where
  "bob = \<lparr>ch_name = ''Char 2'', ch_raw_bytes = ''b'', ch_x = 200, ch_y = 300,
          ch_scale = 1 / 2, ch_flip_h = True, ch_actions = [], ch_z = 0\<rparr>"

definition carol :: "rat Character" where
  "carol = \<lparr>ch_name = ''Char 3'', ch_raw_bytes = ''c'', ch_x = 300, ch_y = 300,
            ch_scale = 1 / 2, ch_flip_h = False, ch_actions = [], ch_z = 1\<rparr>"

definition example_session :: "rat session_state" where
  "example_session = \<lparr>characters = [alice, bob, carol], ui = []\<rparr>"

definition example_background :: layers where
  "example_background = ((640, 480), [(''bg'', 0, 0)])"

section \<open>Substring search\<close>

lemma str_in_iff_sublist: "str_in key p \<longleftrightarrow> sublist key p"
  by (induction p) (auto simp: sublist_Cons_right)

lemma str_in_iff: "str_in key p \<longleftrightarrow> (\<exists>pre post. p = pre @ key @ post)"
  by (simp add: str_in_iff_sublist sublist_def)

lemma lower_append: "lower (u @ v) = lower u @ lower v"
  by (simp add: lower_def)

section \<open>Position inference\<close>

lemma scan_keywords_first:
  "keys = pre @ k # post \<Longrightarrow> \<forall>k'\<in>set pre. \<not> str_in k' p \<Longrightarrow> str_in k p \<Longrightarrow>
   scan_keywords sp keys p = Some (case sp k of None \<Rightarrow> Inl KeyError | Some a \<Rightarrow> Inr a)"
  by (induction pre arbitrary: keys) auto

lemma scan_keywords_None: "scan_keywords sp keys p = None \<longleftrightarrow> (\<forall>k\<in>set keys. \<not> str_in k p)"
  by (induction keys) auto

lemma scan_keywords_Inr:
  "set keys \<subseteq> dom sp \<Longrightarrow> scan_keywords sp keys p = Some r \<Longrightarrow> \<exists>a. r = Inr a"
  by (induction keys) (auto split: if_splits option.splits)

text \<open>Every position keyword has its entry in \<^verbatim>\<open>spots\<close>: the subscript never fails.\<close>

lemma spots_lookup:
  "k \<in> set POSITION_KEYWORDS \<Longrightarrow> map_of (spots W H) k = Some (spec_anchor W H k)"
  by (auto simp: POSITION_KEYWORDS_def spots_def spec_anchor_def)

lemma dom_spots: "set POSITION_KEYWORDS \<subseteq> dom (map_of (spots W H))"
  using spots_lookup by blast

lemma infer_first_match:
  assumes "POSITION_KEYWORDS = pre @ k # post" "\<forall>k'\<in>set pre. \<not> str_in k' (lower prompt)"
    "str_in k (lower prompt)"
  shows "infer_position_from_prompt prompt W H index tot = Inr (spec_anchor W H k)"
proof -
  have "set POSITION_KEYWORDS = set (pre @ k # post)" by (rule arg_cong[OF assms(1)])
  then have "k \<in> set POSITION_KEYWORDS" by simp
  then have "map_of (spots W H) k = Some (spec_anchor W H k)" by (rule spots_lookup)
  then show ?thesis
    using scan_keywords_first[OF assms, of "map_of (spots W H)"]
    by (simp add: infer_position_from_prompt_def)
qed

lemma infer_fallback:
  assumes "\<forall>k\<in>set POSITION_KEYWORDS. \<not> str_in k (lower prompt)" "tot \<noteq> - 1"
  shows "infer_position_from_prompt prompt W H index tot =
         Inr (40 + (index + 1) * (W - 80) div (tot + 1), H - 40)"
proof -
  have "scan_keywords (map_of (spots W H)) POSITION_KEYWORDS (lower prompt) = None"
    using assms(1) by (simp add: scan_keywords_None)
  moreover have "tot + 1 \<noteq> 0" using assms(2) by arith
  ultimately show ?thesis by (simp add: infer_position_from_prompt_def)
qed

text \<open>
  A prompt with a corner keyword contains two of the simple keywords as well, so a
  prompt has exactly one position keyword only when that keyword is one of
  \<^verbatim>\<open>left\<close>, \<^verbatim>\<open>right\<close>, \<^verbatim>\<open>top\<close>, \<^verbatim>\<open>bottom\<close>, \<^verbatim>\<open>center\<close> and \<^verbatim>\<open>middle\<close>.
\<close>

lemma str_in_trans: "str_in a b \<Longrightarrow> str_in b p \<Longrightarrow> str_in a p"
  unfolding str_in_iff_sublist by (rule sublist_order.order_trans)

lemma corner_contains_simple:
  "str_in ''top'' ''top-left''" "str_in ''left'' ''top-left''"
  "str_in ''top'' ''top-right''" "str_in ''right'' ''top-right''"
  "str_in ''bottom'' ''bottom-left''" "str_in ''left'' ''bottom-left''"
  "str_in ''bottom'' ''bottom-right''" "str_in ''right'' ''bottom-right''"
  by simp_all

lemma example_prompt_lower:
  "lower ''sitting at a table on the right'' = ''sitting at a table on the right''"
  by (simp add: lower_def lower_char_def)

text \<open>
  No keyword of the list lies inside a keyword that comes later in the list, so a keyword
  that occurs in the prompt wins as soon as every keyword that occurs lies inside it.
\<close>

lemma keyword_wins:
  assumes "k \<in> set POSITION_KEYWORDS" and "str_in k p"
    and "\<forall>k'\<in>set POSITION_KEYWORDS. str_in k' p \<longrightarrow> str_in k' k"
  shows "scan_keywords sp POSITION_KEYWORDS p =
         Some (case sp k of None \<Rightarrow> Inl KeyError | Some a \<Rightarrow> Inr a)"
proof -
  have parts: "str_in k' p \<Longrightarrow> str_in k' k" if "k' \<in> set POSITION_KEYWORDS" for k'
    using assms(3) that by blast
  have ks: "''top-left'' \<in> set POSITION_KEYWORDS" "''top-right'' \<in> set POSITION_KEYWORDS"
    "''bottom-left'' \<in> set POSITION_KEYWORDS" "''bottom-right'' \<in> set POSITION_KEYWORDS"
    "''left'' \<in> set POSITION_KEYWORDS" "''right'' \<in> set POSITION_KEYWORDS"
    "''top'' \<in> set POSITION_KEYWORDS" "''bottom'' \<in> set POSITION_KEYWORDS"
    "''center'' \<in> set POSITION_KEYWORDS" "''middle'' \<in> set POSITION_KEYWORDS"
    by (simp_all add: POSITION_KEYWORDS_def)
  note p = ks[THEN parts]
  have d: "k = ''top-left'' \<or> k = ''top-right'' \<or> k = ''bottom-left'' \<or> k = ''bottom-right'' \<or>
    k = ''left'' \<or> k = ''right'' \<or> k = ''top'' \<or> k = ''bottom'' \<or> k = ''center'' \<or>
    k = ''middle''"
    using assms(1) by (simp add: POSITION_KEYWORDS_def)
  have c1: ?thesis if "k = ''top-left''"
    using that assms(2) by (simp add: POSITION_KEYWORDS_def)
  have c2: ?thesis if "k = ''top-right''"
    using that assms(2) p(1) by (auto simp: POSITION_KEYWORDS_def)
  have c3: ?thesis if "k = ''bottom-left''"
    using that assms(2) p(1,2) by (auto simp: POSITION_KEYWORDS_def)
  have c4: ?thesis if "k = ''bottom-right''"
    using that assms(2) p(1,2,3) by (auto simp: POSITION_KEYWORDS_def)
  have c5: ?thesis if "k = ''left''"
    using that assms(2) p(1,2,3,4) by (auto simp: POSITION_KEYWORDS_def)
  have c6: ?thesis if "k = ''right''"
    using that assms(2) p(1,2,3,4,5) by (auto simp: POSITION_KEYWORDS_def)
  have c7: ?thesis if "k = ''top''"
    using that assms(2) p(1,2,3,4,5,6) by (auto simp: POSITION_KEYWORDS_def)
  have c8: ?thesis if "k = ''bottom''"
    using that assms(2) p(1,2,3,4,5,6,7) by (auto simp: POSITION_KEYWORDS_def)
  have c9: ?thesis if "k = ''center''"
    using that assms(2) p(1,2,3,4,5,6,7,8) by (auto simp: POSITION_KEYWORDS_def)
  have c10: ?thesis if "k = ''middle''"
    using that assms(2) p(1,2,3,4,5,6,7,8,9) by (auto simp: POSITION_KEYWORDS_def)
  show ?thesis using d by (elim disjE) (erule c1 c2 c3 c4 c5 c6 c7 c8 c9 c10)+
qed

lemma corner_prompt_lower: "lower ''stand at the TOP-LEFT'' = ''stand at the top-left''"
  by code_simp

text \<open>
  Claim C1. When exactly one position keyword \<open>k\<close> occurs in the lower-cased prompt,
  \<^verbatim>\<open>infer_position_from_prompt\<close> returns the anchor that \<^verbatim>\<open>spots\<close> holds for \<open>k\<close>,
  which is the anchor of the specification's table, whatever \<^verbatim>\<open>index\<close> and
  \<^verbatim>\<open>total\<close> are. A corner keyword is written with the two simple keywords that it holds,
  so one keyword in the prompt means that every keyword that occurs is \<open>k\<close> or a part
  of \<open>k\<close>; for the six simple keywords this says that no other keyword occurs.
\<close>

theorem infer_position_single_keyword:
  assumes "k \<in> set POSITION_KEYWORDS" and "str_in k (lower prompt)"
    and "\<forall>k'\<in>set POSITION_KEYWORDS. str_in k' (lower prompt) \<longrightarrow> str_in k' k"
  shows "infer_position_from_prompt prompt W H index tot = Inr (spec_anchor W H k) \<and>
         map_of (spots W H) k = Some (spec_anchor W H k) \<and>
         infer_position_from_prompt prompt W H index tot =
           infer_position_from_prompt prompt W H index' tot'"
proof -
  have a: "map_of (spots W H) k = Some (spec_anchor W H k)" by (rule spots_lookup[OF assms(1)])
  have "scan_keywords (map_of (spots W H)) POSITION_KEYWORDS (lower prompt) =
      Some (Inr (spec_anchor W H k))"
    using keyword_wins[OF assms, of "map_of (spots W H)"] a by simp
  then have "infer_position_from_prompt prompt W H i t = Inr (spec_anchor W H k)" for i t
    by (simp add: infer_position_from_prompt_def)
  then show ?thesis using a by simp
qed

text \<open>
  On a canvas of 1280 by 720 and the prompt \<^verbatim>\<open>sitting at a table on the right\<close>, both of
  two uploaded characters are anchored at (1240, 360); with \<^verbatim>\<open>stand at the TOP-LEFT\<close>
  both are anchored at the corner (40, 40).
\<close>

theorem infer_position_single_keyword_witness:
  "''right'' \<in> set POSITION_KEYWORDS \<and>
   str_in ''right'' (lower ''sitting at a table on the right'') \<and>
   filter (\<lambda>k'. str_in k' (lower ''sitting at a table on the right'')) POSITION_KEYWORDS
     = [''right''] \<and>
   infer_position_from_prompt ''sitting at a table on the right'' 1280 720 0 2 = Inr (1240, 360) \<and>
   infer_position_from_prompt ''sitting at a table on the right'' 1280 720 1 2 = Inr (1240, 360) \<and>
   ''top-left'' \<in> set POSITION_KEYWORDS \<and>
   str_in ''top-left'' (lower ''stand at the TOP-LEFT'') \<and>
   filter (\<lambda>k'. str_in k' (lower ''stand at the TOP-LEFT'')) POSITION_KEYWORDS
     = [''top-left'', ''left'', ''top''] \<and>
   str_in ''left'' ''top-left'' \<and> str_in ''top'' ''top-left'' \<and>
   infer_position_from_prompt ''stand at the TOP-LEFT'' 1280 720 0 2 = Inr (40, 40) \<and>
   infer_position_from_prompt ''stand at the TOP-LEFT'' 1280 720 1 2 = Inr (40, 40)"
proof -
  have a: "''right'' \<in> set POSITION_KEYWORDS" "''top-left'' \<in> set POSITION_KEYWORDS"
    by (simp_all add: POSITION_KEYWORDS_def)
  have b: "str_in ''right'' (lower ''sitting at a table on the right'')"
    "str_in ''top-left'' (lower ''stand at the TOP-LEFT'')"
    by (simp_all add: example_prompt_lower corner_prompt_lower)
  have c: "\<forall>k'\<in>set POSITION_KEYWORDS.
             str_in k' (lower ''sitting at a table on the right'') \<longrightarrow> str_in k' ''right''"
    by (simp add: example_prompt_lower POSITION_KEYWORDS_def)
  have c': "\<forall>k'\<in>set POSITION_KEYWORDS.
             str_in k' (lower ''stand at the TOP-LEFT'') \<longrightarrow> str_in k' ''top-left''"
    by (simp add: corner_prompt_lower POSITION_KEYWORDS_def)
  have d: "spec_anchor 1280 720 ''right'' = (1240, 360)"
    "spec_anchor 1280 720 ''top-left'' = (40, 40)"
    by (simp_all add: spec_anchor_def)
  have e: "filter (\<lambda>k'. str_in k' (lower ''sitting at a table on the right'')) POSITION_KEYWORDS
             = [''right'']"
    "filter (\<lambda>k'. str_in k' (lower ''stand at the TOP-LEFT'')) POSITION_KEYWORDS
             = [''top-left'', ''left'', ''top'']"
    by (simp_all add: example_prompt_lower corner_prompt_lower POSITION_KEYWORDS_def)
  have f: "str_in ''left'' ''top-left''" "str_in ''top'' ''top-left''" by simp_all
  have r: "infer_position_from_prompt ''sitting at a table on the right'' 1280 720 0 2
             = Inr (1240, 360)"
    "infer_position_from_prompt ''sitting at a table on the right'' 1280 720 1 2
             = Inr (1240, 360)"
    using infer_position_single_keyword[OF a(1) b(1) c, of 1280 720 0 2]
      infer_position_single_keyword[OF a(1) b(1) c, of 1280 720 1 2] d(1)
    by simp_all
  have t: "infer_position_from_prompt ''stand at the TOP-LEFT'' 1280 720 0 2 = Inr (40, 40)"
    "infer_position_from_prompt ''stand at the TOP-LEFT'' 1280 720 1 2 = Inr (40, 40)"
    using infer_position_single_keyword[OF a(2) b(2) c', of 1280 720 0 2]
      infer_position_single_keyword[OF a(2) b(2) c', of 1280 720 1 2] d(2)
    by simp_all
  show ?thesis using a b e f r t by (intro conjI)
qed

text \<open>
  Claim C9. The divisor of the fallback spacing is \<^verbatim>\<open>total + 1\<close>, so for every
  \<^verbatim>\<open>total\<close> that is not negative, zero included, \<^verbatim>\<open>infer_position_from_prompt\<close>
  returns a position and raises nothing.
\<close>

theorem infer_position_no_zero_division:
  assumes "0 \<le> tot"
  shows "\<exists>pos. infer_position_from_prompt prompt W H index tot = Inr pos"
proof (cases "scan_keywords (map_of (spots W H)) POSITION_KEYWORDS (lower prompt)")
  case None
  then show ?thesis using assms by (simp add: infer_position_from_prompt_def)
next
  case (Some r)
  then obtain a where "r = Inr a" using scan_keywords_Inr[OF dom_spots] by blast
  then show ?thesis using Some by (simp add: infer_position_from_prompt_def)
qed

theorem infer_position_no_zero_division_witness:
  "(0::int) \<le> 0 \<and> infer_position_from_prompt ''two friends'' 1280 720 0 0 = Inr (1240, 680)"
proof -
  have "infer_position_from_prompt ''two friends'' 1280 720 0 0 = Inr (1240, 680)"
    by code_simp
  then show ?thesis using infer_position_no_zero_division[of 0 "''two friends''" 1280 720 0]
    by simp
qed

text \<open>The exception is in the model: only \<^verbatim>\<open>total = -1\<close> reaches it.\<close>

lemma infer_position_zero_division_example:
  "infer_position_from_prompt ''two friends'' 1280 720 0 (- 1) = Inl ZeroDivisionError"
  by code_simp

lemma top_left_first:
  assumes "str_in ''top-left'' (lower prompt)"
  shows "infer_position_from_prompt prompt W H index tot = Inr (40, 40)"
proof -
  have "POSITION_KEYWORDS = [] @ ''top-left'' # tl POSITION_KEYWORDS"
    by (simp add: POSITION_KEYWORDS_def)
  from infer_first_match[OF this _ assms]
  have "infer_position_from_prompt prompt W H index tot = Inr (spec_anchor W H ''top-left'')"
    by simp
  then show ?thesis by (simp add: spec_anchor_def)
qed

text \<open>
  Claim C2. The keywords are tried in the order of \<^verbatim>\<open>POSITION_KEYWORDS\<close>, and the first
  one that occurs in the lower-cased prompt gives the result. A prompt that contains
  \<^verbatim>\<open>top-left\<close> is therefore anchored at (40, 40), the \<^verbatim>\<open>top-left\<close> entry of
  \<^verbatim>\<open>spots\<close>, and on every canvas that the script can pass, at least 480 wide and 270 high
  by the bounds of the two \<^verbatim>\<open>number_input\<close> widgets, that is neither the \<^verbatim>\<open>top\<close> anchor
  nor the \<^verbatim>\<open>left\<close> anchor.
\<close>

theorem infer_position_priority_order:
  "POSITION_KEYWORDS =
     [''top-left'', ''top-right'', ''bottom-left'', ''bottom-right'',
      ''left'', ''right'', ''top'', ''bottom'', ''center'', ''middle''] \<and>
   (\<forall>pre k post.
      POSITION_KEYWORDS = pre @ k # post \<and> (\<forall>k'\<in>set pre. \<not> str_in k' (lower prompt)) \<and>
      str_in k (lower prompt) \<longrightarrow>
      infer_position_from_prompt prompt W H index tot = Inr (spec_anchor W H k) \<and>
      map_of (spots W H) k = Some (spec_anchor W H k)) \<and>
   (str_in ''top-left'' (lower prompt) \<longrightarrow>
      infer_position_from_prompt prompt W H index tot = Inr (40, 40) \<and>
      map_of (spots W H) ''top'' = Some (W div 2, 40) \<and>
      map_of (spots W H) ''left'' = Some (40, H div 2)) \<and>
   (str_in ''top-left'' (lower prompt) \<and> 480 \<le> W \<and> 270 \<le> H \<longrightarrow>
      infer_position_from_prompt prompt W H index tot \<noteq> Inr (W div 2, 40) \<and>
      infer_position_from_prompt prompt W H index tot \<noteq> Inr (40, H div 2))"
proof (intro conjI allI impI)
  show "POSITION_KEYWORDS =
     [''top-left'', ''top-right'', ''bottom-left'', ''bottom-right'',
      ''left'', ''right'', ''top'', ''bottom'', ''center'', ''middle'']"
    by (rule POSITION_KEYWORDS_def)
next
  fix pre k post
  assume h: "POSITION_KEYWORDS = pre @ k # post \<and>
    (\<forall>k'\<in>set pre. \<not> str_in k' (lower prompt)) \<and> str_in k (lower prompt)"
  then show "infer_position_from_prompt prompt W H index tot = Inr (spec_anchor W H k)"
    using infer_first_match by blast
  have "set POSITION_KEYWORDS = set (pre @ k # post)" using h by (intro arg_cong[of _ _ set]) blast
  then have "k \<in> set POSITION_KEYWORDS" by simp
  then show "map_of (spots W H) k = Some (spec_anchor W H k)" by (rule spots_lookup)
next
  assume tl: "str_in ''top-left'' (lower prompt)"
  show "infer_position_from_prompt prompt W H index tot = Inr (40, 40)"
    using tl by (rule top_left_first)
  show "map_of (spots W H) ''top'' = Some (W div 2, 40)" by (simp add: spots_def)
  show "map_of (spots W H) ''left'' = Some (40, H div 2)" by (simp add: spots_def)
next
  assume h: "str_in ''top-left'' (lower prompt) \<and> 480 \<le> W \<and> 270 \<le> H"
  then have r: "infer_position_from_prompt prompt W H index tot = Inr (40, 40)"
    using top_left_first by blast
  have "480 \<le> W" "270 \<le> H" using h by simp_all
  then have "W div 2 \<noteq> 40" "H div 2 \<noteq> 40" by linarith+
  then show "infer_position_from_prompt prompt W H index tot \<noteq> Inr (W div 2, 40)"
    "infer_position_from_prompt prompt W H index tot \<noteq> Inr (40, H div 2)"
    using r by simp_all
qed

lemma top_left_prompt_lower: "lower ''Stand TOP-LEFT of the left door'' = ''stand top-left of the left door''"
  by code_simp

lemma left_top_prompt_lower: "lower ''Left of the top shelf'' = ''left of the top shelf''"
  by code_simp

theorem infer_position_priority_order_witness:
  "str_in ''top-left'' (lower ''Stand TOP-LEFT of the left door'') \<and>
   str_in ''left'' (lower ''Stand TOP-LEFT of the left door'') \<and>
   str_in ''top'' (lower ''Stand TOP-LEFT of the left door'') \<and>
   (480::int) \<le> 1280 \<and> (270::int) \<le> 720 \<and>
   infer_position_from_prompt ''Stand TOP-LEFT of the left door'' 1280 720 0 1 = Inr (40, 40) \<and>
   infer_position_from_prompt ''Stand TOP-LEFT of the left door'' 1280 720 0 1 \<noteq> Inr (640, 40) \<and>
   infer_position_from_prompt ''Stand TOP-LEFT of the left door'' 1280 720 0 1 \<noteq> Inr (40, 360) \<and>
   POSITION_KEYWORDS =
     [''top-left'', ''top-right'', ''bottom-left'', ''bottom-right''] @
     ''left'' # [''right'', ''top'', ''bottom'', ''center'', ''middle''] \<and>
   filter (\<lambda>k'. str_in k' (lower ''Left of the top shelf''))
     [''top-left'', ''top-right'', ''bottom-left'', ''bottom-right''] = [] \<and>
   str_in ''left'' (lower ''Left of the top shelf'') \<and>
   str_in ''top'' (lower ''Left of the top shelf'') \<and>
   infer_position_from_prompt ''Left of the top shelf'' 1280 720 0 1 = Inr (40, 360)"
proof -
  have a: "str_in ''top-left'' (lower ''Stand TOP-LEFT of the left door'')"
    by (simp add: top_left_prompt_lower)
  have b: "str_in ''left'' (lower ''Stand TOP-LEFT of the left door'')"
      "str_in ''top'' (lower ''Stand TOP-LEFT of the left door'')"
    by (simp_all add: top_left_prompt_lower)
  have c: "(480::int) \<le> 1280" "(270::int) \<le> 720" by simp_all
  have p: "POSITION_KEYWORDS =
     [''top-left'', ''top-right'', ''bottom-left'', ''bottom-right''] @
     ''left'' # [''right'', ''top'', ''bottom'', ''center'', ''middle'']"
    by (simp add: POSITION_KEYWORDS_def)
  have e: "filter (\<lambda>k'. str_in k' (lower ''Left of the top shelf''))
     [''top-left'', ''top-right'', ''bottom-left'', ''bottom-right''] = []"
    by (simp add: left_top_prompt_lower)
  then have n: "\<forall>k'\<in>set [''top-left'', ''top-right'', ''bottom-left'', ''bottom-right''].
      \<not> str_in k' (lower ''Left of the top shelf'')"
    by (simp only: filter_empty_conv)
  have l: "str_in ''left'' (lower ''Left of the top shelf'')"
    "str_in ''top'' (lower ''Left of the top shelf'')"
    by (simp_all add: left_top_prompt_lower)
  have d: "spec_anchor 1280 720 ''left'' = (40, 360)" by (simp add: spec_anchor_def)
  note t = infer_position_priority_order[of "''Stand TOP-LEFT of the left door''" 1280 720 0 1]
  have r: "infer_position_from_prompt ''Stand TOP-LEFT of the left door'' 1280 720 0 1 = Inr (40, 40)"
    "infer_position_from_prompt ''Stand TOP-LEFT of the left door'' 1280 720 0 1 \<noteq> Inr (640, 40)"
    "infer_position_from_prompt ''Stand TOP-LEFT of the left door'' 1280 720 0 1 \<noteq> Inr (40, 360)"
    using t a c by simp_all
  have "infer_position_from_prompt ''Left of the top shelf'' 1280 720 0 1
      = Inr (spec_anchor 1280 720 ''left'')"
    using infer_position_priority_order[of "''Left of the top shelf''" 1280 720 0 1] p n l(1)
    by blast
  then have q: "infer_position_from_prompt ''Left of the top shelf'' 1280 720 0 1 = Inr (40, 360)"
    using d by simp
  show ?thesis using a b c r p e l q by (intro conjI)
qed

section \<open>Fallback spacing\<close>

text \<open>Consecutive multiples of \<open>a\<close>, divided by \<open>n\<close> and rounded down, differ by
  \<open>a div n\<close> or by one more.\<close>

lemma floor_div_step:
  fixes a n k :: int
  assumes n: "0 < n"
  shows "(k + 1) * a div n = k * a div n + a div n \<or>
         (k + 1) * a div n = k * a div n + a div n + 1"
proof -
  define r where "r = k * a mod n + a mod n"
  have e: "(k + 1) * a = n * (k * a div n + a div n) + r"
    unfolding r_def by (simp add: algebra_simps)
  have lo: "0 \<le> r" unfolding r_def using n by (simp add: add_nonneg_nonneg)
  have "k * a mod n < n" "a mod n < n" using n by simp_all
  then have hi: "r < 2 * n" unfolding r_def by linarith
  show ?thesis
  proof (cases "r < n")
    case True
    then have "(k + 1) * a div n = k * a div n + a div n"
      using e lo by (rule_tac int_div_pos_eq)
    then show ?thesis by simp
  next
    case False
    have "(k + 1) * a = n * (k * a div n + a div n + 1) + (r - n)"
      using e by (simp add: algebra_simps)
    moreover have "0 \<le> r - n" "r - n < n" using False hi by linarith+
    ultimately have "(k + 1) * a div n = k * a div n + a div n + 1"
      by (rule int_div_pos_eq)
    then show ?thesis by simp
  qed
qed

lemma floor_div_range:
  fixes a n k :: int
  assumes "0 < n" "0 \<le> a" "0 \<le> k" "k \<le> n"
  shows "0 \<le> k * a div n \<and> k * a div n \<le> a"
proof -
  have "0 \<le> k * a" using assms by simp
  then have lo: "0 \<le> k * a div n" using assms(1) by (simp add: pos_imp_zdiv_nonneg_iff)
  have "k * a \<le> n * a" using assms by (simp add: mult_right_mono)
  then have "k * a div n \<le> n * a div n" using assms(1) by (rule zdiv_mono1)
  then have "k * a div n \<le> a" using assms(1) by simp
  with lo show ?thesis by simp
qed

lemma floor_div_whole:
  fixes a n :: int
  assumes "0 < n" "n \<le> a"
  shows "1 \<le> a div n"
proof -
  have "n div n \<le> a div n" using assms(2) assms(1) by (rule zdiv_mono1)
  then show ?thesis using assms(1) by simp
qed

text \<open>
  Claim C3, amended. Without a position keyword, and with \<open>N\<close> characters, the
  character of index \<open>i\<close> is placed at \<open>x i = 40 + (i + 1) * (W - 80) div (N + 1)\<close>, rounded
  down, and at \<open>y = H - 40\<close>. The formula gives 40 at index \<open>-1\<close> and \<open>W - 40\<close> at index
  \<open>N\<close>; consecutive positions differ by \<open>(W - 80) div (N + 1)\<close> or by one pixel more. On a
  canvas at least 80 wide they never decrease and lie between 40 and \<open>W - 40\<close>, and they
  increase strictly when \<open>N + 1 \<le> W - 80\<close>.
\<close>

theorem fallback_spacing:
  assumes "\<forall>k\<in>set POSITION_KEYWORDS. \<not> str_in k (lower prompt)" and "0 \<le> N"
  shows "\<exists>x. (\<forall>i. infer_position_from_prompt prompt W H i N = Inr (x i, H - 40)) \<and>
           (\<forall>i. x i = 40 + (i + 1) * (W - 80) div (N + 1)) \<and>
           x (- 1) = 40 \<and> x N = W - 40 \<and>
           (\<forall>i. x (i + 1) - x i = (W - 80) div (N + 1) \<or>
                x (i + 1) - x i = (W - 80) div (N + 1) + 1) \<and>
           (80 \<le> W \<longrightarrow> (\<forall>i. x i \<le> x (i + 1))) \<and>
           (80 \<le> W \<longrightarrow> (\<forall>i. 0 \<le> i \<and> i < N \<longrightarrow> 40 \<le> x i \<and> x i \<le> W - 40)) \<and>
           (N + 1 \<le> W - 80 \<longrightarrow> (\<forall>i. x i < x (i + 1)))"
proof -
  define x where "x i = 40 + (i + 1) * (W - 80) div (N + 1)" for i
  have n: "0 < N + 1" using assms(2) by simp
  have "N \<noteq> - 1" using assms(2) by simp
  then have r: "infer_position_from_prompt prompt W H i N = Inr (x i, H - 40)" for i
    unfolding x_def by (rule infer_fallback[OF assms(1)])
  have ends: "x (- 1) = 40" "x N = W - 40" using n by (simp_all add: x_def)
  have step: "x (i + 1) - x i = (W - 80) div (N + 1) \<or>
              x (i + 1) - x i = (W - 80) div (N + 1) + 1" for i
    using floor_div_step[OF n, of "i + 1" "W - 80"] by (auto simp: x_def algebra_simps)
  have mono: "x i \<le> x (i + 1)" if "80 \<le> W" for i
  proof -
    have "0 \<le> (W - 80) div (N + 1)" using that n by (simp add: pos_imp_zdiv_nonneg_iff)
    then show ?thesis using step[of i] by linarith
  qed
  have range: "40 \<le> x i \<and> x i \<le> W - 40" if "80 \<le> W" "0 \<le> i" "i < N" for i
    using floor_div_range[OF n, of "W - 80" "i + 1"] that by (simp add: x_def)
  have strict: "x i < x (i + 1)" if "N + 1 \<le> W - 80" for i
    using floor_div_whole[OF n that] step[of i] by linarith
  show ?thesis
    using r ends step mono range strict x_def by (intro exI[of _ x]) blast
qed

lemma two_friends_lower: "lower ''two friends'' = ''two friends''"
  by (simp add: lower_def lower_char_def)

theorem fallback_spacing_witness:
  "filter (\<lambda>k. str_in k (lower ''two friends'')) POSITION_KEYWORDS = [] \<and> (0::int) \<le> 6 \<and>
   (80::int) \<le> 1280 \<and> (6::int) + 1 \<le> 1280 - 80 \<and>
   infer_position_from_prompt ''two friends'' 1280 720 0 6 = Inr (211, 680) \<and>
   infer_position_from_prompt ''two friends'' 1280 720 1 6 = Inr (382, 680) \<and>
   infer_position_from_prompt ''two friends'' 1280 720 2 6 = Inr (554, 680)"
proof -
  have e: "filter (\<lambda>k. str_in k (lower ''two friends'')) POSITION_KEYWORDS = []"
    by (simp add: two_friends_lower POSITION_KEYWORDS_def)
  then have a: "\<forall>k\<in>set POSITION_KEYWORDS. \<not> str_in k (lower ''two friends'')"
    by (simp add: filter_empty_conv)
  obtain x where x: "\<forall>i. infer_position_from_prompt ''two friends'' 1280 720 i 6 = Inr (x i, 720 - 40)"
     "\<forall>i. x i = 40 + (i + 1) * (1280 - 80) div (6 + 1)"
    using fallback_spacing[OF a, of 6 1280 720] by auto
  have "x 0 = 211" "x 1 = 382" "x 2 = 554" using x(2) by simp_all
  then show ?thesis using e x(1) by simp
qed

text \<open>
  The claim as it is written fails: with six characters on a canvas 1280 wide the first
  gap is 171 and the second 172, and the exact quotient 1200 / 7 is no integer; with 401
  characters on a canvas 480 wide the characters of index 200 and 201 share \<open>x = 240\<close>.
\<close>

theorem fallback_spacing_counterexample:
  "infer_position_from_prompt ''two friends'' 1280 720 0 6 = Inr (211, 680) \<and>
   infer_position_from_prompt ''two friends'' 1280 720 1 6 = Inr (382, 680) \<and>
   infer_position_from_prompt ''two friends'' 1280 720 2 6 = Inr (554, 680) \<and>
   (382 - 211 :: int) \<noteq> 554 - 382 \<and>
   (of_int 211 :: rat) \<noteq> 40 + (0 + 1) * (1280 - 2 * 40) / (6 + 1) \<and>
   infer_position_from_prompt ''two friends'' 480 270 200 401 = Inr (240, 230) \<and>
   infer_position_from_prompt ''two friends'' 480 270 201 401 = Inr (240, 230)"
proof -
  have e: "filter (\<lambda>k. str_in k (lower ''two friends'')) POSITION_KEYWORDS = []"
    by (simp add: two_friends_lower POSITION_KEYWORDS_def)
  then have a: "\<forall>k\<in>set POSITION_KEYWORDS. \<not> str_in k (lower ''two friends'')"
    by (simp add: filter_empty_conv)
  show ?thesis by (simp add: infer_fallback[OF a])
qed

section \<open>Action extraction\<close>

lemma collect_present_filter: "collect_present vs p = filter (\<lambda>v. str_in v p) vs"
  by (induction vs) simp_all

text \<open>
  Claim C4. \<^verbatim>\<open>extract_actions\<close> returns the action keywords that occur in the lower-cased
  prompt, in the order of \<^verbatim>\<open>ACTION_KEYWORDS\<close>: the result is that list filtered, hence a
  subsequence of it without repetition, and a keyword written in the prompt in any mix of
  cases is found. The function has no argument but the prompt and no result but the list,
  so two runs on one prompt give one list.
\<close>

theorem extract_actions_keywords_in_list_order:
  "ACTION_KEYWORDS =
     [''walking'', ''running'', ''sitting'', ''standing'', ''waving'', ''talking'',
      ''reading'', ''pointing'', ''dancing'', ''jumping'', ''holding'', ''looking''] \<and>
   extract_actions prompt =
     filter (\<lambda>v. \<exists>pre post. lower prompt = pre @ v @ post) ACTION_KEYWORDS \<and>
   subseq (extract_actions prompt) ACTION_KEYWORDS \<and>
   distinct (extract_actions prompt) \<and>
   (\<forall>v w pre post. v \<in> set ACTION_KEYWORDS \<and> lower w = v \<and> prompt = pre @ w @ post
      \<longrightarrow> v \<in> set (extract_actions prompt))"
proof -
  have f: "extract_actions prompt =
     filter (\<lambda>v. \<exists>pre post. lower prompt = pre @ v @ post) ACTION_KEYWORDS"
    by (simp add: extract_actions_def collect_present_filter str_in_iff)
  have d: "distinct ACTION_KEYWORDS" by (simp add: ACTION_KEYWORDS_def)
  have "v \<in> set (extract_actions prompt)"
    if "v \<in> set ACTION_KEYWORDS \<and> lower w = v \<and> prompt = pre @ w @ post" for v w pre post
  proof -
    have "lower prompt = lower pre @ v @ lower post" using that by (simp add: lower_append)
    then show ?thesis using that unfolding f by auto
  qed
  then show ?thesis using f d by (auto simp: ACTION_KEYWORDS_def[symmetric])
qed

lemma looking_prompt_lower: "lower ''Looking around, then WALKING'' = ''looking around, then walking''"
  by code_simp

theorem extract_actions_keywords_in_list_order_witness:
  "''walking'' \<in> set ACTION_KEYWORDS \<and> lower ''WALKING'' = ''walking'' \<and>
   ''Looking around, then WALKING'' = ''Looking around, then '' @ ''WALKING'' @ [] \<and>
   extract_actions ''Looking around, then WALKING'' = [''walking'', ''looking'']"
proof -
  have a: "''walking'' \<in> set ACTION_KEYWORDS" by (simp add: ACTION_KEYWORDS_def)
  have b: "lower ''WALKING'' = ''walking''" by code_simp
  have c: "''Looking around, then WALKING'' = ''Looking around, then '' @ ''WALKING'' @ []" by simp
  have m: "''walking'' \<in> set (extract_actions ''Looking around, then WALKING'')"
    using extract_actions_keywords_in_list_order[of "''Looking around, then WALKING''"] a b c
    by blast
  have "extract_actions ''Looking around, then WALKING'' = [''walking'', ''looking'']"
    by (simp add: extract_actions_def looking_prompt_lower ACTION_KEYWORDS_def)
  then show ?thesis using a b m by simp
qed

section \<open>Pasting a sprite\<close>

text \<open>\<^verbatim>\<open>int(x_center - ow / 2)\<close> in integer arithmetic, by the parity of \<open>ow\<close>.\<close>

lemma parity_cases_int:
  fixes b :: int
  obtains k where "b = 2 * k" | k where "b = 2 * k + 1"
proof (cases "even b")
  case True
  then obtain k where "b = 2 * k" unfolding dvd_def by blast
  then show ?thesis by (rule that(1))
next
  case False
  then obtain k where "b = 2 * k + 1" by (rule oddE)
  then show ?thesis by (rule that(2))
qed

lemma half_floor:
  fixes a k :: int
  shows "(2 * a - 2 * k) div 2 = a - k" "(2 * a - (2 * k + 1)) div 2 = a - k - 1"
    "(2 * k + 1 + 1) div 2 = k + 1" "(2 * k + 1) div 2 = k" "(2 * k + 1 - 2 * a) div 2 = k - a"
    "(2 * k - 2 * a) div 2 = k - a" "(2 * k) div 2 = k"
proof -
  show "(2 * a - 2 * k) div 2 = a - k" by (rule int_div_pos_eq[where r = 0]) simp_all
  show "(2 * a - (2 * k + 1)) div 2 = a - k - 1" by (rule int_div_pos_eq[where r = 1]) simp_all
  show "(2 * k + 1 + 1) div 2 = k + 1" by (rule int_div_pos_eq[where r = 0]) simp_all
  show "(2 * k + 1) div 2 = k" by (rule int_div_pos_eq[where r = 1]) simp_all
  show "(2 * k + 1 - 2 * a) div 2 = k - a" by (rule int_div_pos_eq[where r = 1]) simp_all
  show "(2 * k - 2 * a) div 2 = k - a" by (rule int_div_pos_eq[where r = 0]) simp_all
  show "(2 * k) div 2 = k" by (rule int_div_pos_eq[where r = 0]) simp_all
qed

lemma py_int_half:
  "py_int (of_int a - of_int b / 2) = (if b \<le> 2 * a then a - (b + 1) div 2 else a - b div 2)"
proof -
  have e: "(of_int a - of_int b / 2 :: rat) = of_int (2 * a - b) / of_int 2"
    by (simp add: field_simps)
  have f: "\<lfloor>(of_int (2 * a - b) / of_int 2 :: rat)\<rfloor> = (2 * a - b) div 2"
    by (rule floor_divide_of_int_eq)
  have c: "\<lceil>(of_int (2 * a - b) / of_int 2 :: rat)\<rceil> = - ((b - 2 * a) div 2)"
  proof -
    have "(of_int (2 * a - b) / of_int 2 :: rat) = - (of_int (b - 2 * a) / of_int 2)"
      by (simp add: field_simps)
    then have "\<lceil>(of_int (2 * a - b) / of_int 2 :: rat)\<rceil> = - \<lfloor>(of_int (b - 2 * a) / of_int 2 :: rat)\<rfloor>"
      by (simp only: ceiling_minus)
    then show ?thesis by (simp only: floor_divide_of_int_eq)
  qed
  have "0 \<le> (of_int n / of_int 2 :: rat) \<longleftrightarrow> 0 \<le> n" for n :: int
    by (simp add: zero_le_divide_iff)
  then have s: "0 \<le> (of_int (2 * a - b) / of_int 2 :: rat) \<longleftrightarrow> 0 \<le> 2 * a - b" .
  have g: "(if 0 \<le> 2 * a - b then (2 * a - b) div 2 else - ((b - 2 * a) div 2)) =
           (if b \<le> 2 * a then a - (b + 1) div 2 else a - b div 2)"
  proof (cases b rule: parity_cases_int)
    case (1 k)
    show ?thesis unfolding 1 by (simp add: half_floor)
  next
    case (2 k)
    show ?thesis unfolding 2 by (simp add: half_floor)
  qed
  show ?thesis unfolding py_int_def e s f c by (rule g)
qed

lemma py_int_half_twice:
  "\<bar>2 * py_int (of_int a - of_int b / 2) - (2 * a - b)\<bar> \<le> 1"
  "even b \<Longrightarrow> 2 * py_int (of_int a - of_int b / 2) = 2 * a - b"
proof -
  show "\<bar>2 * py_int (of_int a - of_int b / 2) - (2 * a - b)\<bar> \<le> 1"
  proof (cases b rule: parity_cases_int)
    case (1 k)
    show ?thesis unfolding py_int_half unfolding 1 by (simp add: half_floor)
  next
    case (2 k)
    show ?thesis unfolding py_int_half unfolding 2 by (simp add: half_floor)
  qed
  show "2 * py_int (of_int a - of_int b / 2) = 2 * a - b" if eb: "even b"
  proof -
    obtain k where k: "b = 2 * k" using eb unfolding dvd_def by blast
    show ?thesis unfolding py_int_half unfolding k by (simp add: half_floor)
  qed
qed

lemma half_of_int: "(of_int x - (of_int a - of_int b / 2) :: rat) = of_int (2 * x - (2 * a - b)) / 2"
  by (simp add: field_simps)

lemma py_int_half_error:
  "\<bar>of_int (py_int (of_int a - of_int b / 2)) - (of_int a - of_int b / 2 :: rat)\<bar> \<le> 1 / 2"
proof -
  define n where "n = 2 * py_int (of_int a - of_int b / 2) - (2 * a - b)"
  have "\<bar>n\<bar> \<le> 1" unfolding n_def by (rule py_int_half_twice)
  then have "(of_int \<bar>n\<bar> :: rat) \<le> of_int 1" by (simp only: of_int_le_iff)
  then have "\<bar>of_int n :: rat\<bar> \<le> 1" by simp
  then have "\<bar>(of_int n :: rat) / 2\<bar> \<le> 1 / 2" by simp
  then show ?thesis unfolding half_of_int n_def .
qed

lemma py_int_half_even:
  assumes "even b"
  shows "(of_int (py_int (of_int a - of_int b / 2)) :: rat) = of_int a - of_int b / 2"
proof -
  have "2 * py_int (of_int a - of_int b / 2) - (2 * a - b) = 0"
    using py_int_half_twice(2)[OF assms, of a] by simp
  then have "(of_int (py_int (of_int a - of_int b / 2)) - (of_int a - of_int b / 2) :: rat) = 0"
    unfolding half_of_int by simp
  then show ?thesis by simp
qed

text \<open>
  Claim C5, amended. \<^verbatim>\<open>paste_rgba\<close> composites the sprite with its origin at
  \<open>(x, y_bottom - oh)\<close>, where \<open>x\<close> is \<open>x_center - ow / 2\<close> truncated toward zero: the
  bottom edge lies on the anchor, and the horizontal centre lies on it exactly when the
  width is even, and within half a pixel of it otherwise (\<open>x_center - (ow + 1) div 2\<close> when
  \<open>ow \<le> 2 * x_center\<close>, and \<open>x_center - ow div 2\<close> when the origin is negative).
\<close>

theorem paste_rgba_origin:
  assumes "pil_size lib overlay = (ow, oh)"
  shows "\<exists>x. paste_rgba lib base overlay x_center y_bottom =
               pil_alpha_composite lib base overlay (x, y_bottom - oh) \<and>
             x = py_int (of_int x_center - of_int ow / 2) \<and>
             x = (if ow \<le> 2 * x_center then x_center - (ow + 1) div 2 else x_center - ow div 2) \<and>
             (even ow \<longrightarrow> (of_int x :: rat) = of_int x_center - of_int ow / 2) \<and>
             \<bar>(of_int x :: rat) - (of_int x_center - of_int ow / 2)\<bar> \<le> 1 / 2"
proof (intro exI conjI impI)
  show "paste_rgba lib base overlay x_center y_bottom =
      pil_alpha_composite lib base overlay (py_int (of_int x_center - of_int ow / 2), y_bottom - oh)"
    using assms by (simp add: paste_rgba_def)
  show "py_int (of_int x_center - of_int ow / 2) = py_int (of_int x_center - of_int ow / 2)" ..
  show "py_int (of_int x_center - of_int ow / 2) =
      (if ow \<le> 2 * x_center then x_center - (ow + 1) div 2 else x_center - ow div 2)"
    by (rule py_int_half)
  show "(of_int (py_int (of_int x_center - of_int ow / 2)) :: rat) = of_int x_center - of_int ow / 2"
    if "even ow" using that by (rule py_int_half_even)
  show "\<bar>(of_int (py_int (of_int x_center - of_int ow / 2)) :: rat) - (of_int x_center - of_int ow / 2)\<bar> \<le> 1 / 2"
    by (rule py_int_half_error)
qed

theorem paste_rgba_origin_witness:
  "pil_size example_lib ((6, 3), [(''s'', 0, 0)]) = (6, 3) \<and> even (6::int) \<and>
   paste_rgba example_lib ((100, 100), []) ((6, 3), [(''s'', 0, 0)]) 10 10 =
     Inr ((100, 100), [(''s'', 7, 7)])"
proof -
  have a: "pil_size example_lib ((6, 3), [(''s'', 0, 0)]) = (6, 3)"
    by (simp add: example_lib_def)
  obtain x where x: "paste_rgba example_lib ((100, 100), []) ((6, 3), [(''s'', 0, 0)]) 10 10 =
      pil_alpha_composite example_lib ((100, 100), []) ((6, 3), [(''s'', 0, 0)]) (x, 10 - 3)"
     "x = (if (6::int) \<le> 2 * 10 then 10 - (6 + 1) div 2 else 10 - 6 div 2)"
    using paste_rgba_origin[OF a, of "((100, 100), [])" 10 10] by blast
  have "x = 7" using x(2) by simp
  then show ?thesis using a x(1) by (simp add: example_lib_def)
qed

text \<open>
  The claim as it is written fails for a sprite of odd width: at width 5 and anchor 10 the
  origin is 7, which is neither 10 - 5 / 2 nor 10 - 5 div 2.
\<close>

theorem paste_rgba_odd_width_counterexample:
  "pil_size example_lib ((5, 3), [(''s'', 0, 0)]) = (5, 3) \<and>
   paste_rgba example_lib ((100, 100), []) ((5, 3), [(''s'', 0, 0)]) 10 10 =
     Inr ((100, 100), [(''s'', 7, 7)]) \<and>
   (of_int 7 :: rat) \<noteq> of_int 10 - of_int 5 / 2 \<and>
   (7 :: int) \<noteq> 10 - 5 div 2"
proof -
  have "py_int (of_int 10 - of_int 5 / 2) = 7" using py_int_half[of 10 5] by simp
  then show ?thesis by (simp add: example_lib_def paste_rgba_def)
qed

section \<open>Scaling a sprite\<close>

text \<open>
  Whatever \<^verbatim>\<open>int(w * scale)\<close> gives, \<^verbatim>\<open>scale_image\<close> asks Pillow for an image of at
  least one pixel in each dimension.
\<close>

lemma scale_image_dimensions:
  assumes "scale_image lib img sc = Inr r"
  shows "\<exists>w2 h2. 1 \<le> w2 \<and> 1 \<le> h2 \<and> pil_resize lib img (w2, h2) = Inr r"
  using assms
  by (auto simp: scale_image_def Let_def split: prod.splits sum.splits intro: max.cobounded1)

text \<open>Rounding to binary64 keeps the sign, and \<^verbatim>\<open>int\<close> of a float that is not negative
  is its floor.\<close>

lemma pow2_pos: "0 < pow2 e"
  by (simp add: pow2_def)

lemma round_half_even_nonneg: "0 \<le> x \<Longrightarrow> 0 \<le> round_half_even x"
proof -
  assume "0 \<le> x"
  then have "0 \<le> \<lfloor>x\<rfloor>" by simp
  then show ?thesis by (simp add: round_half_even_def Let_def)
qed

lemma round_binary64_nonneg: "0 \<le> x \<Longrightarrow> 0 \<le> round_binary64 x"
proof -
  assume x: "0 \<le> x"
  have "0 \<le> x / pow2 e" for e using x pow2_pos[of e] by simp
  then have "0 \<le> round_half_even (x / pow2 e)" for e by (rule round_half_even_nonneg)
  then have "0 \<le> (of_int (round_half_even (x / pow2 e)) :: rat) * pow2 e" for e
    using pow2_pos[of e] by simp
  then show ?thesis by (simp add: round_binary64_def Let_def)
qed

lemma binary64_int_mul_floor:
  assumes "0 \<le> w" "0 < s" "round_binary64 (of_int w * s) < 2 ^ 1024"
  shows "binary64_int_mul w s = Inr \<lfloor>round_binary64 (of_int w * s)\<rfloor>"
proof -
  have "0 \<le> of_int w * s" using assms(1,2) by simp
  then have n: "0 \<le> round_binary64 (of_int w * s)" by (rule round_binary64_nonneg)
  then have "\<bar>round_binary64 (of_int w * s)\<bar> < 2 ^ 1024" using assms(3) by simp
  then have "\<not> 2 ^ 1024 \<le> \<bar>round_binary64 (of_int w * s)\<bar>" by simp
  then show ?thesis using n by (simp add: binary64_int_mul_def Let_def py_int_def)
qed

text \<open>
  Claim C7, amended. For an image of width \<open>w\<close> and height \<open>h\<close> and a scale factor
  \<open>s > 0\<close>, \<^verbatim>\<open>scale_image\<close> resizes to \<open>max 1 \<lfloor>w \<otimes> s\<rfloor>\<close> by \<open>max 1 \<lfloor>h \<otimes> s\<rfloor>\<close>, where
  \<open>\<otimes>\<close> is the product of binary64, the exact product rounded to 53 bits, provided both
  products are finite. Each dimension is at least 1, so the image is never empty.
\<close>

theorem scale_image_binary64:
  assumes "float_int_mul lib = binary64_int_mul" and "pil_size lib img = (w, h)"
    and "0 \<le> w" and "0 \<le> h" and "0 < s"
    and "round_binary64 (of_int w * s) < 2 ^ 1024" and "round_binary64 (of_int h * s) < 2 ^ 1024"
  shows "scale_image lib img s =
           pil_resize lib img
             (max 1 \<lfloor>round_binary64 (of_int w * s)\<rfloor>, max 1 \<lfloor>round_binary64 (of_int h * s)\<rfloor>) \<and>
         1 \<le> max 1 \<lfloor>round_binary64 (of_int w * s)\<rfloor> \<and>
         1 \<le> max 1 \<lfloor>round_binary64 (of_int h * s)\<rfloor>"
  using assms binary64_int_mul_floor[of w s] binary64_int_mul_floor[of h s]
  by (simp add: scale_image_def Let_def)

text \<open>The slider at 80 per cent and an image 100 wide and 1 high: the result is 80 by 1.\<close>

lemma binary64_int_mul_examples:
  "binary64_int_mul 100 (slider_scale 80) = Inr 80"
  "binary64_int_mul 1 (slider_scale 80) = Inr 0"
  "binary64_int_mul 100 (slider_scale 115) = Inr 114"
  "binary64_int_mul 10 (slider_scale 30) = Inr 3"
  by code_simp+

lemma exact_product_examples:
  "\<lfloor>(100 :: rat) * (115 / 100)\<rfloor> = 115" "\<lfloor>10 * slider_scale 30\<rfloor> = 2"
  "\<lfloor>round_binary64 (100 * slider_scale 80)\<rfloor> = 80"
  "\<lfloor>round_binary64 (1 * slider_scale 80)\<rfloor> = 0"
  "0 < slider_scale 80"
  "round_binary64 (100 * slider_scale 80) < 2 ^ 1024"
  "round_binary64 (1 * slider_scale 80) < 2 ^ 1024"
  by code_simp+

theorem scale_image_binary64_witness:
  "float_int_mul example_lib = binary64_int_mul \<and>
   pil_size example_lib ((100, 1), [(''s'', 0, 0)]) = (100, 1) \<and>
   (0 :: int) \<le> 100 \<and> (0 :: int) \<le> 1 \<and> 0 < slider_scale 80 \<and>
   round_binary64 (of_int 100 * slider_scale 80) < 2 ^ 1024 \<and>
   round_binary64 (of_int 1 * slider_scale 80) < 2 ^ 1024 \<and>
   scale_image example_lib ((100, 1), [(''s'', 0, 0)]) (slider_scale 80) =
     Inr ((80, 1), [(''s'', 0, 0)])"
proof -
  have a: "float_int_mul example_lib = binary64_int_mul"
    "pil_size example_lib ((100, 1), [(''s'', 0, 0)]) = (100, 1)"
    by (simp_all add: example_lib_def)
  have b: "(0 :: int) \<le> 100" "(0 :: int) \<le> 1" by simp_all
  have c: "round_binary64 (of_int 100 * slider_scale 80) < 2 ^ 1024"
    "round_binary64 (of_int 1 * slider_scale 80) < 2 ^ 1024"
    using exact_product_examples(6,7) by simp_all
  have f: "\<lfloor>round_binary64 (of_int 100 * slider_scale 80)\<rfloor> = 80"
    "\<lfloor>round_binary64 (of_int 1 * slider_scale 80)\<rfloor> = 0"
    using exact_product_examples(3,4) by simp_all
  have "scale_image example_lib ((100, 1), [(''s'', 0, 0)]) (slider_scale 80) =
      pil_resize example_lib ((100, 1), [(''s'', 0, 0)]) (max 1 80, max 1 0)"
    using scale_image_binary64[OF a b exact_product_examples(5) c] unfolding f by simp
  then have "scale_image example_lib ((100, 1), [(''s'', 0, 0)]) (slider_scale 80) =
     Inr ((80, 1), [(''s'', 0, 0)])"
    by (simp add: example_lib_def)
  then show ?thesis using a b c exact_product_examples(5) by (intro conjI)
qed

text \<open>
  The claim as it is written fails, since the rounded product is not the exact one. With
  the slider at 115 per cent an image 100 wide becomes 114 wide, where 100 times 1.15 is
  115; and with the slider at 30 per cent an image 10 wide becomes 3 wide, where the floor
  of 10 times the stored scale factor, a number below 0.3, is 2.
\<close>

theorem scale_image_float_product_counterexample:
  "scale_image example_lib ((100, 100), []) (slider_scale 115) = Inr ((114, 114), []) \<and>
   \<lfloor>(100 :: rat) * (115 / 100)\<rfloor> = 115 \<and>
   scale_image example_lib ((10, 10), []) (slider_scale 30) = Inr ((3, 3), []) \<and>
   \<lfloor>10 * slider_scale 30\<rfloor> = 2"
  using binary64_int_mul_examples(3,4) exact_product_examples(1,2)
  by (simp add: scale_image_def example_lib_def)

section \<open>The order of drawing\<close>

text \<open>
  Insertion into a sorted list keeps the elements that are there in their order, and puts
  the new element before every element whose key is not smaller.
\<close>

lemma subseq_insort_key: "subseq ys (insort_key f x ys)"
  by (induction ys) auto

lemma insort_key_before:
  "b \<in> set ys \<Longrightarrow> f a \<le> f b \<Longrightarrow> subseq [a, b] (insort_key f a ys)"
proof (induction ys)
  case Nil
  then show ?case by simp
next
  case (Cons y ys)
  show ?case
  proof (cases "f a \<le> f y")
    case True
    then have eq: "insort_key f a (y # ys) = a # y # ys" by simp
    have "subseq [b] (y # ys)" using Cons.prems(1) by (simp only: subseq_singleton_left)
    then show ?thesis unfolding eq by (rule subseq_Cons2)
  next
    case False
    then have eq: "insort_key f a (y # ys) = y # insort_key f a ys" by simp
    have "b \<noteq> y" using False Cons.prems(2) by auto
    then have "b \<in> set ys" using Cons.prems(1) by simp
    then have "subseq [a, b] (insort_key f a ys)" using Cons.prems(2) by (rule Cons.IH)
    then show ?thesis unfolding eq by (rule list_emb_Cons)
  qed
qed

lemma sort_key_keeps_order:
  "cs = us @ a # rest \<Longrightarrow> b \<in> set rest \<Longrightarrow> f a \<le> f b \<Longrightarrow> subseq [a, b] (sort_key f cs)"
proof (induction us arbitrary: cs)
  case Nil
  have "b \<in> set (sort_key f rest)" using Nil.prems(2) by simp
  then have "subseq [a, b] (insort_key f a (sort_key f rest))"
    using Nil.prems(3) by (rule insort_key_before)
  then show ?case using Nil.prems(1) by simp
next
  case (Cons u us)
  have "subseq [a, b] (sort_key f (us @ a # rest))"
    using Cons.IH[OF refl Cons.prems(2,3)] .
  moreover have "subseq (sort_key f (us @ a # rest)) (insort_key f u (sort_key f (us @ a # rest)))"
    by (rule subseq_insort_key)
  ultimately have "subseq [a, b] (insort_key f u (sort_key f (us @ a # rest)))"
    by (rule subseq_order.order_trans)
  then show ?case using Cons.prems(1) by simp
qed

lemma sorted_smaller_first:
  assumes "sorted (map f ys)" "a \<in> set ys" "b \<in> set ys" "f a < f b"
  shows "subseq [a, b] ys"
proof -
  obtain us ws where ys: "ys = us @ b # ws" using assms(3) by (auto dest: split_list)
  have "a \<notin> set ws"
  proof
    assume "a \<in> set ws"
    then have "f b \<le> f a" using assms(1) unfolding ys by (simp add: sorted_append)
    then show False using assms(4) by simp
  qed
  moreover have "a \<noteq> b" using assms(4) by auto
  ultimately have "a \<in> set us" using assms(2) unfolding ys by auto
  then have "subseq [a] us" by (simp only: subseq_singleton_left)
  moreover have "subseq [b] (b # ws)" by (simp only: subseq_singleton_left) simp
  ultimately have "subseq ([a] @ [b]) (us @ b # ws)" by (rule list_emb_append_mono)
  then show ?thesis unfolding ys by simp
qed

text \<open>The loop paints one character after the other onto the canvas of the ones before.\<close>

lemma draw_characters_append:
  "draw_characters lib (earlier @ later) canvas s =
     (case draw_characters lib earlier canvas s of
        (s', Inl e) \<Rightarrow> (s', Inl e)
      | (s', Inr c) \<Rightarrow> draw_characters lib later c s')"
  by (induction earlier arbitrary: canvas) (auto split: sum.splits)

lemma draw_characters_single:
  "draw_characters lib [ch] canvas s =
     (case as_image lib ch of
        Inl e \<Rightarrow> (s, Inl e)
      | Inr sprite \<Rightarrow> (s, paste_rgba lib canvas sprite (ch_x ch) (ch_y ch)))"
  by (auto split: sum.splits)

text \<open>
  Claim C6. The preview starts from a new transparent canvas of the canvas size, composites
  the background onto it and then the characters in the order of \<^verbatim>\<open>sorted\<close> by \<open>z\<close>.
  That order is a rearrangement of the character list with ascending \<open>z\<close>; characters of
  one \<open>z\<close> keep the order of the list; so a character is drawn before every character
  that follows it in the list with a \<open>z\<close> that is not smaller, and before every character
  of greater \<open>z\<close>. The character drawn last is pasted onto the composite of all the others.
  \<open>subseq [a, b] l\<close> says that \<open>a\<close> occurs in \<open>l\<close> before \<open>b\<close>.
\<close>

theorem compose_preview_draw_order:
  "compose_preview lib canvas_w canvas_h bg_img s =
     (case pil_new lib ''RGBA'' (canvas_w, canvas_h) (0, 0, 0, 0) of
        Inl e \<Rightarrow> (s, Inl e)
      | Inr blank \<Rightarrow>
          (case pil_alpha_composite lib blank bg_img (0, 0) of
             Inl e \<Rightarrow> (s, Inl e)
           | Inr canvas \<Rightarrow> draw_characters lib (sorted_by_z (characters s)) canvas s)) \<and>
   sorted (map ch_z (sorted_by_z cs)) \<and>
   mset (sorted_by_z cs) = mset cs \<and>
   (\<forall>k. filter (\<lambda>c. ch_z c = k) (sorted_by_z cs) = filter (\<lambda>c. ch_z c = k) cs) \<and>
   (\<forall>us a rest b. cs = us @ a # rest \<and> b \<in> set rest \<and> ch_z a \<le> ch_z b \<longrightarrow>
      subseq [a, b] (sorted_by_z cs)) \<and>
   (\<forall>a b. a \<in> set cs \<and> b \<in> set cs \<and> ch_z a < ch_z b \<longrightarrow> subseq [a, b] (sorted_by_z cs)) \<and>
   (\<forall>earlier ch canvas.
      draw_characters lib (earlier @ [ch]) canvas s =
        (case draw_characters lib earlier canvas s of
           (s', Inl e) \<Rightarrow> (s', Inl e)
         | (s', Inr c) \<Rightarrow>
             (case as_image lib ch of
                Inl e \<Rightarrow> (s', Inl e)
              | Inr sprite \<Rightarrow> (s', paste_rgba lib c sprite (ch_x ch) (ch_y ch)))))"
proof (intro conjI allI impI)
  show "compose_preview lib canvas_w canvas_h bg_img s =
     (case pil_new lib ''RGBA'' (canvas_w, canvas_h) (0, 0, 0, 0) of
        Inl e \<Rightarrow> (s, Inl e)
      | Inr blank \<Rightarrow>
          (case pil_alpha_composite lib blank bg_img (0, 0) of
             Inl e \<Rightarrow> (s, Inl e)
           | Inr canvas \<Rightarrow> draw_characters lib (sorted_by_z (characters s)) canvas s))"
    by (rule compose_preview_def)
  show "sorted (map ch_z (sorted_by_z cs))" by (simp add: sorted_by_z_def)
  show "mset (sorted_by_z cs) = mset cs" by (simp add: sorted_by_z_def)
  show "filter (\<lambda>c. ch_z c = k) (sorted_by_z cs) = filter (\<lambda>c. ch_z c = k) cs" for k
    unfolding sorted_by_z_def by (rule sort_key_stable)
  show "subseq [a, b] (sorted_by_z cs)"
    if "cs = us @ a # rest \<and> b \<in> set rest \<and> ch_z a \<le> ch_z b" for us a rest b
    unfolding sorted_by_z_def using that by (blast intro: sort_key_keeps_order)
  show "subseq [a, b] (sorted_by_z cs)"
    if "a \<in> set cs \<and> b \<in> set cs \<and> ch_z a < ch_z b" for a b
    unfolding sorted_by_z_def using that by (intro sorted_smaller_first[where f = ch_z]) simp_all
  show "draw_characters lib (earlier @ [ch]) canvas s =
        (case draw_characters lib earlier canvas s of
           (s', Inl e) \<Rightarrow> (s', Inl e)
         | (s', Inr c) \<Rightarrow>
             (case as_image lib ch of
                Inl e \<Rightarrow> (s', Inl e)
              | Inr sprite \<Rightarrow> (s', paste_rgba lib c sprite (ch_x ch) (ch_y ch))))"
    for earlier ch canvas
    unfolding draw_characters_append draw_characters_single ..
qed

text \<open>The example scene: the list is alice, bob, carol with \<open>z\<close> 1, 0, 1.\<close>

lemma example_order: "sorted_by_z [alice, bob, carol] = [bob, alice, carol]"
  by (simp add: sorted_by_z_def alice_def bob_def carol_def)

lemma example_sprites:
  "as_image example_lib alice = Inr ((5, 10), [(''a'', 0, 0)])"
  "as_image example_lib bob = Inr ((5, 10), [(''b'', 0, 0)])"
  "as_image example_lib carol = Inr ((5, 10), [(''c'', 0, 0)])"
proof -
  have m: "binary64_int_mul 10 (1 / 2) = Inr 5" "binary64_int_mul 20 (1 / 2) = Inr 10"
    by code_simp+
  show "as_image example_lib alice = Inr ((5, 10), [(''a'', 0, 0)])"
    "as_image example_lib bob = Inr ((5, 10), [(''b'', 0, 0)])"
    "as_image example_lib carol = Inr ((5, 10), [(''c'', 0, 0)])"
    by (simp_all add: as_image_def bytes_to_image_def flip_h_if_needed_def scale_image_def
        ensure_rgba_def example_lib_def alice_def bob_def carol_def m)
qed

lemma example_pastes:
  "paste_rgba example_lib (sz, ls) ((5, 10), [(n, 0, 0)]) 100 300 = Inr (sz, ls @ [(n, 97, 290)])"
  "paste_rgba example_lib (sz, ls) ((5, 10), [(n, 0, 0)]) 200 300 = Inr (sz, ls @ [(n, 197, 290)])"
  "paste_rgba example_lib (sz, ls) ((5, 10), [(n, 0, 0)]) 300 300 = Inr (sz, ls @ [(n, 297, 290)])"
proof -
  have "py_int (of_int 100 - of_int 5 / 2) = 97" "py_int (of_int 200 - of_int 5 / 2) = 197"
    "py_int (of_int 300 - of_int 5 / 2) = 297"
    unfolding py_int_half by simp_all
  then show
    "paste_rgba example_lib (sz, ls) ((5, 10), [(n, 0, 0)]) 100 300 = Inr (sz, ls @ [(n, 97, 290)])"
    "paste_rgba example_lib (sz, ls) ((5, 10), [(n, 0, 0)]) 200 300 = Inr (sz, ls @ [(n, 197, 290)])"
    "paste_rgba example_lib (sz, ls) ((5, 10), [(n, 0, 0)]) 300 300 = Inr (sz, ls @ [(n, 297, 290)])"
    by (simp_all add: paste_rgba_def example_lib_def)
qed

lemma example_positions:
  "ch_x alice = 100" "ch_y alice = 300" "ch_x bob = 200" "ch_y bob = 300"
  "ch_x carol = 300" "ch_y carol = 300"
  by (simp_all add: alice_def bob_def carol_def)

lemma example_composite:
  "compose_preview example_lib 640 480 example_background example_session =
     (example_session,
      Inr ((640, 480), [(''bg'', 0, 0), (''b'', 197, 290), (''a'', 97, 290), (''c'', 297, 290)]))"
proof -
  have c: "characters example_session = [alice, bob, carol]" by (simp add: example_session_def)
  have n: "pil_new example_lib ''RGBA'' (640, 480) (0, 0, 0, 0) = Inr ((640, 480), [])"
    by (simp add: example_lib_def)
  have b: "pil_alpha_composite example_lib ((640, 480), []) example_background (0, 0) =
      Inr ((640, 480), [(''bg'', 0, 0)])"
    by (simp add: example_lib_def example_background_def)
  show ?thesis
    unfolding compose_preview_def c example_order
    by (simp add: n b example_sprites example_pastes example_positions)
qed

theorem compose_preview_draw_order_witness:
  "[alice, bob, carol] = [] @ alice # [bob, carol] \<and> carol \<in> set [bob, carol] \<and>
   ch_z alice \<le> ch_z carol \<and> ch_z bob < ch_z alice \<and>
   subseq [alice, carol] (sorted_by_z [alice, bob, carol]) \<and>
   subseq [bob, alice] (sorted_by_z [alice, bob, carol]) \<and>
   sorted_by_z [alice, bob, carol] = [bob, alice, carol] \<and>
   compose_preview example_lib 640 480 example_background example_session =
     (example_session,
      Inr ((640, 480), [(''bg'', 0, 0), (''b'', 197, 290), (''a'', 97, 290), (''c'', 297, 290)]))"
proof -
  have a: "[alice, bob, carol] = [] @ alice # [bob, carol]" "carol \<in> set [bob, carol]"
      "ch_z alice \<le> ch_z carol" "ch_z bob < ch_z alice"
      "bob \<in> set [alice, bob, carol]" "alice \<in> set [alice, bob, carol]"
    by (simp_all add: alice_def bob_def carol_def)
  have t: "subseq [alice, carol] (sorted_by_z [alice, bob, carol])"
    using compose_preview_draw_order[of example_lib 640 480 example_background example_session
        "[alice, bob, carol]"] a(1,2,3)
    by blast
  have u: "subseq [bob, alice] (sorted_by_z [alice, bob, carol])"
    using compose_preview_draw_order[of example_lib 640 480 example_background example_session
        "[alice, bob, carol]"] a(4,5,6)
    by blast
  show ?thesis using a(1,2,3,4) t u example_order example_composite by (intro conjI)
qed

section \<open>The report and the downloads\<close>

lemma try_except_no_raise:
  assumes "\<And>e s'. \<exists>s'' v. handler e s' = (s'', Inr v)"
  shows "\<exists>s' v. try_except body handler s = (s', Inr v)"
proof (cases "body s")
  case (Pair s' r)
  then show ?thesis using assms[of _ s'] by (cases r) (auto simp: try_except_def)
qed

lemma build_pdf_doc_cases:
  "build_pdf_doc lib rl prompt composite s =
     (case pdf_body lib rl prompt composite (characters s) of
        Inl e \<Rightarrow> (s\<lparr>ui := ui s @ [St_error e]\<rparr>, Inr None)
      | Inr b \<Rightarrow> (s, Inr (Some b)))"
  by (simp add: build_pdf_doc_def try_except_def split: sum.splits)

lemma pdf_characters_thumbnail_failure:
  "rl_character rl i ch c = Inr c1 \<Longrightarrow> thumbnail_block lib rl ch c1 = Inl e \<Longrightarrow>
   pdf_characters lib rl i (ch # rest) c =
     (case rl_advance rl c1 of
        Inl e' \<Rightarrow> Inl e'
      | Inr c3 \<Rightarrow> pdf_characters lib rl (i + 1) rest c3)"
  by simp

text \<open>
  Claim C8, amended. \<^verbatim>\<open>build_pdf_doc\<close> returns and never raises. An exception raised
  while the thumbnail of a character is made or drawn is dropped, and the report goes on
  with the next step. When any other step of the construction of the PDF raises \<open>e\<close>,
  that is when the body of the outer \<^verbatim>\<open>try\<close> ends with \<open>e\<close>, \<^verbatim>\<open>build_pdf_doc\<close> shows
  \<open>e\<close> with \<^verbatim>\<open>st.error\<close> and returns \<^verbatim>\<open>None\<close>; otherwise it returns the bytes. The PNG and JSON buttons are made before it runs and hold the same
  data whatever it does: once the composite is saved as PNG, the export ends without an
  exception, and after a failed report the third button is disabled and empty.
\<close>

theorem build_pdf_doc_never_raises:
  "(\<exists>s' r. build_pdf_doc lib rl prompt composite s = (s', Inr r)) \<and>
   (\<forall>e. pdf_body lib rl prompt composite (characters s) = Inl e \<longrightarrow>
      build_pdf_doc lib rl prompt composite s = (s\<lparr>ui := ui s @ [St_error e]\<rparr>, Inr None)) \<and>
   (\<forall>b. pdf_body lib rl prompt composite (characters s) = Inr b \<longrightarrow>
      build_pdf_doc lib rl prompt composite s = (s, Inr (Some b))) \<and>
   (\<forall>png. image_to_bytes lib composite ''PNG'' = Inr png \<longrightarrow>
      snd (export_scene lib rl prompt canvas_w canvas_h composite s) = Inr () \<and>
      prefix
        (ui s @
           [St_download_button ''scene.png'' (Png png) False,
            St_download_button ''scene.json''
              (Json (scene_dict prompt canvas_w canvas_h (characters s))) False])
        (ui (fst (export_scene lib rl prompt canvas_w canvas_h composite s)))) \<and>
   (\<forall>png e. image_to_bytes lib composite ''PNG'' = Inr png \<and>
      pdf_body lib rl prompt composite (characters s) = Inl e \<longrightarrow>
      export_scene lib rl prompt canvas_w canvas_h composite s =
        (s\<lparr>ui := ui s @
             [St_download_button ''scene.png'' (Png png) False,
              St_download_button ''scene.json''
                (Json (scene_dict prompt canvas_w canvas_h (characters s))) False,
              St_error e,
              St_download_button ''documentation.pdf'' (Pdf []) True]\<rparr>,
         Inr ())) \<and>
   (\<forall>e i ch rest c c1.
      rl_character rl i ch c = Inr c1 \<and> thumbnail_block lib rl ch c1 = Inl e \<longrightarrow>
      pdf_characters lib rl i (ch # rest) c =
        (case rl_advance rl c1 of
           Inl e' \<Rightarrow> Inl e'
         | Inr c3 \<Rightarrow> pdf_characters lib rl (i + 1) rest c3))"
proof (intro conjI allI impI)
  show "pdf_characters lib rl i (ch # rest) c =
        (case rl_advance rl c1 of
           Inl e' \<Rightarrow> Inl e'
         | Inr c3 \<Rightarrow> pdf_characters lib rl (i + 1) rest c3)"
    if "rl_character rl i ch c = Inr c1 \<and> thumbnail_block lib rl ch c1 = Inl e"
    for e i ch rest c c1
    using that by (simp add: pdf_characters_thumbnail_failure)
  show "\<exists>s' r. build_pdf_doc lib rl prompt composite s = (s', Inr r)"
    unfolding build_pdf_doc_def by (rule try_except_no_raise) simp
  show "build_pdf_doc lib rl prompt composite s = (s\<lparr>ui := ui s @ [St_error e]\<rparr>, Inr None)"
    if "pdf_body lib rl prompt composite (characters s) = Inl e" for e
    using that by (simp add: build_pdf_doc_cases)
  show "build_pdf_doc lib rl prompt composite s = (s, Inr (Some b))"
    if "pdf_body lib rl prompt composite (characters s) = Inr b" for b
    using that by (simp add: build_pdf_doc_cases)
  show "snd (export_scene lib rl prompt canvas_w canvas_h composite s) = Inr ()"
    if "image_to_bytes lib composite ''PNG'' = Inr png" for png
    using that
    by (cases "pdf_body lib rl prompt composite (characters s)")
      (simp_all add: export_scene_def build_pdf_doc_cases Let_def)
  show "prefix
        (ui s @
           [St_download_button ''scene.png'' (Png png) False,
            St_download_button ''scene.json''
              (Json (scene_dict prompt canvas_w canvas_h (characters s))) False])
        (ui (fst (export_scene lib rl prompt canvas_w canvas_h composite s)))"
    if "image_to_bytes lib composite ''PNG'' = Inr png" for png
    using that
    by (cases "pdf_body lib rl prompt composite (characters s)")
      (simp_all add: export_scene_def build_pdf_doc_cases Let_def)
  show "export_scene lib rl prompt canvas_w canvas_h composite s =
        (s\<lparr>ui := ui s @
             [St_download_button ''scene.png'' (Png png) False,
              St_download_button ''scene.json''
                (Json (scene_dict prompt canvas_w canvas_h (characters s))) False,
              St_error e,
              St_download_button ''documentation.pdf'' (Pdf []) True]\<rparr>,
         Inr ())"
    if "image_to_bytes lib composite ''PNG'' = Inr png \<and>
      pdf_body lib rl prompt composite (characters s) = Inl e" for png e
    using that by (simp add: export_scene_def build_pdf_doc_cases Let_def)
qed

text \<open>The example scene where ReportLab is not installed.\<close>

lemma example_png: "image_to_bytes example_lib example_background ''PNG'' = Inr ''bg''"
  by (simp add: image_to_bytes_def example_lib_def example_background_def)

lemma no_reportlab_body:
  "pdf_body example_lib no_reportlab prompt composite cs =
     Inl (LibraryError ''No module named reportlab'')"
  by (simp add: pdf_body_def no_reportlab_def)

theorem build_pdf_doc_never_raises_witness:
  "image_to_bytes example_lib example_background ''PNG'' = Inr ''bg'' \<and>
   pdf_body example_lib no_reportlab ''hi'' example_background (characters example_session) =
     Inl (LibraryError ''No module named reportlab'') \<and>
   build_pdf_doc example_lib no_reportlab ''hi'' example_background example_session =
     (example_session\<lparr>ui := [St_error (LibraryError ''No module named reportlab'')]\<rparr>, Inr None) \<and>
   export_scene example_lib no_reportlab ''hi'' 640 480 example_background example_session =
     (example_session\<lparr>ui :=
        [St_download_button ''scene.png'' (Png ''bg'') False,
         St_download_button ''scene.json''
           (Json (scene_dict ''hi'' 640 480 [alice, bob, carol])) False,
         St_error (LibraryError ''No module named reportlab''),
         St_download_button ''documentation.pdf'' (Pdf []) True]\<rparr>,
      Inr ())"
proof -
  have c: "characters example_session = [alice, bob, carol]" "ui example_session = []"
    by (simp_all add: example_session_def)
  note t = build_pdf_doc_never_raises[of example_lib no_reportlab "''hi''" example_background
      example_session 640 480]
  have "build_pdf_doc example_lib no_reportlab ''hi'' example_background example_session =
     (example_session\<lparr>ui := ui example_session @
        [St_error (LibraryError ''No module named reportlab'')]\<rparr>, Inr None)"
    using t no_reportlab_body by blast
  moreover have "export_scene example_lib no_reportlab ''hi'' 640 480 example_background example_session =
     (example_session\<lparr>ui := ui example_session @
        [St_download_button ''scene.png'' (Png ''bg'') False,
         St_download_button ''scene.json''
           (Json (scene_dict ''hi'' 640 480 (characters example_session))) False,
         St_error (LibraryError ''No module named reportlab''),
         St_download_button ''documentation.pdf'' (Pdf []) True]\<rparr>,
      Inr ())"
    using t example_png no_reportlab_body by blast
  ultimately show ?thesis using example_png no_reportlab_body c by simp
qed

text \<open>
  The claim as it is written fails: where Pillow cannot make the thumbnails, an exception
  is raised for every character during the construction, and \<^verbatim>\<open>build_pdf_doc\<close> returns
  the bytes of a report without thumbnails, with no \<^verbatim>\<open>st.error\<close>.
\<close>

lemma failing_thumbnail_block:
  "thumbnail_block example_lib failing_thumbnails ch c =
     (case as_image example_lib ch of
        Inl e \<Rightarrow> Inl e
      | Inr img \<Rightarrow> Inl (LibraryError ''cannot make a thumbnail''))"
  by (simp add: thumbnail_block_def failing_thumbnails_def split: sum.splits)

lemma failing_thumbnails_fields:
  "rl_import failing_thumbnails = None" "rl_cover failing_thumbnails = Inr [''cover'']"
  "rl_prompt failing_thumbnails p c = Inr (c @ [p])"
  "rl_composite failing_thumbnails b sz c = Inr (c @ [b])"
  "rl_heading failing_thumbnails c = Inr (c @ [''characters''])"
  "rl_character failing_thumbnails i ch c = Inr (c @ [ch_name ch])"
  "rl_advance failing_thumbnails c = Inr c"
  "rl_reflections failing_thumbnails c = Inr (c @ [''reflections''])"
  "rl_save failing_thumbnails c = Inr (concat c)"
  by (simp_all add: failing_thumbnails_def example_reportlab_def)

lemma failing_thumbnails_step:
  "as_image example_lib ch = Inr img \<Longrightarrow>
   pdf_characters example_lib failing_thumbnails i (ch # rest) c =
     pdf_characters example_lib failing_thumbnails (i + 1) rest (c @ [ch_name ch])"
  by (simp add: failing_thumbnails_fields failing_thumbnail_block)

lemma example_names:
  "ch_name alice = ''Char 1''" "ch_name bob = ''Char 2''" "ch_name carol = ''Char 3''"
  by (simp_all add: alice_def bob_def carol_def)

lemma failing_thumbnails_characters:
  "pdf_characters example_lib failing_thumbnails 1 [alice, bob, carol] c =
     Inr (c @ [''Char 1'', ''Char 2'', ''Char 3''])"
proof -
  have "pdf_characters example_lib failing_thumbnails 1 [alice, bob, carol] c =
      pdf_characters example_lib failing_thumbnails (1 + 1) [bob, carol] (c @ [ch_name alice])"
    by (rule failing_thumbnails_step[OF example_sprites(1)])
  also have "\<dots> = pdf_characters example_lib failing_thumbnails (1 + 1 + 1) [carol]
      ((c @ [ch_name alice]) @ [ch_name bob])"
    by (rule failing_thumbnails_step[OF example_sprites(2)])
  also have "\<dots> = pdf_characters example_lib failing_thumbnails (1 + 1 + 1 + 1) []
      (((c @ [ch_name alice]) @ [ch_name bob]) @ [ch_name carol])"
    by (rule failing_thumbnails_step[OF example_sprites(3)])
  also have "\<dots> = Inr (c @ [''Char 1'', ''Char 2'', ''Char 3''])"
    by (simp add: example_names)
  finally show ?thesis .
qed

lemma failing_thumbnails_body:
  "pdf_body example_lib failing_thumbnails ''hi'' example_background [alice, bob, carol] =
     Inr ''coverhibgcharactersChar 1Char 2Char 3reflections''"
proof -
  have p: "image_to_bytes example_lib example_background ''PNG'' = Inr ''bg''"
    by (simp add: image_to_bytes_def example_lib_def example_background_def)
  show ?thesis
    unfolding pdf_body_def
    by (simp add: failing_thumbnails_fields p failing_thumbnails_characters
        del: pdf_characters.simps One_nat_def)
qed

theorem swallowed_thumbnail_exception_counterexample:
  "thumbnail_block example_lib failing_thumbnails alice [''cover''] =
     Inl (LibraryError ''cannot make a thumbnail'') \<and>
   build_pdf_doc example_lib failing_thumbnails ''hi'' example_background example_session =
     (example_session, Inr (Some ''coverhibgcharactersChar 1Char 2Char 3reflections''))"
proof -
  have "thumbnail_block example_lib failing_thumbnails alice [''cover''] =
     Inl (LibraryError ''cannot make a thumbnail'')"
    by (simp add: failing_thumbnail_block example_sprites)
  moreover have "build_pdf_doc example_lib failing_thumbnails ''hi'' example_background example_session =
     (example_session, Inr (Some ''coverhibgcharactersChar 1Char 2Char 3reflections''))"
    using failing_thumbnails_body by (simp add: build_pdf_doc_cases example_session_def)
  ultimately show ?thesis by (rule conjI)
qed

section \<open>Session state\<close>

lemma draw_characters_frame: "fst (draw_characters lib cs canvas s) = s"
  by (induction cs arbitrary: canvas) (auto split: sum.splits)

lemma compose_preview_frame: "fst (compose_preview lib canvas_w canvas_h bg_img s) = s"
  by (simp add: compose_preview_def draw_characters_frame split: sum.splits)

lemma build_pdf_doc_frame:
  "characters (fst (build_pdf_doc lib rl prompt composite s)) = characters s"
  by (simp add: build_pdf_doc_cases split: sum.splits)

lemma export_scene_frame:
  "characters (fst (export_scene lib rl prompt canvas_w canvas_h composite s)) = characters s"
  by (simp add: export_scene_def build_pdf_doc_cases Let_def split: sum.splits)

text \<open>
  Claim C10. Composing the preview leaves the session state as it is, and building the
  report, making the downloads and a whole pass from preview to downloads leave the
  character list as it is: the list, and in it every field of every character, is the same
  after as before, whether the pass ends normally or with an exception.
\<close>

theorem render_preserves_characters:
  "fst (compose_preview lib canvas_w canvas_h bg_img s) = s \<and>
   characters (fst (build_pdf_doc lib rl prompt composite s)) = characters s \<and>
   characters (fst (export_scene lib rl prompt canvas_w canvas_h composite s)) = characters s \<and>
   characters (fst (render lib rl prompt canvas_w canvas_h bg_img s)) = characters s"
proof -
  have "characters (fst (render lib rl prompt canvas_w canvas_h bg_img s)) = characters s"
  proof (cases "compose_preview lib canvas_w canvas_h bg_img s")
    case (Pair s1 r)
    then have "s1 = s" using compose_preview_frame[of lib canvas_w canvas_h bg_img s] by simp
    then show ?thesis using Pair
      by (cases r) (simp_all add: render_def export_scene_frame)
  qed
  then show ?thesis
    by (simp add: compose_preview_frame build_pdf_doc_frame export_scene_frame)
qed

theorem render_preserves_characters_witness:
  "characters
     (fst (render example_lib example_reportlab ''hi'' 640 480 example_background example_session))
     = [alice, bob, carol] \<and>
   characters
     (fst (render example_lib no_reportlab ''hi'' 640 480 example_background example_session))
     = [alice, bob, carol]"
  using render_preserves_characters[of example_lib 640 480 example_background example_session
      example_reportlab "''hi''" example_background]
    render_preserves_characters[of example_lib 640 480 example_background example_session
      no_reportlab "''hi''" example_background]
  by (simp add: example_session_def)

end
